theory Spec2Isabelle
  imports Complex_Main
begin

section \<open>Python values\<close>

text \<open>
  The script is dynamically typed: a probe result is a number, \<open>None\<close> or the string
  sentinel \<open>Desconhecido\<close>, and the parsed TPM payload is any JSON value. One datatype
  covers the values that reach the evaluation. A dict is the list of its items, with
  distinct keys.

  A \<open>str\<close> is modelled as the list of bytes of its UTF-8 encoding, so an ASCII
  character is one \<open>char\<close> and the accented letters of the report are two.

  A \<open>float\<close> is modelled by a rational: \<open>PFloat q\<close> stands for the binary64 number
  nearest to \<open>q\<close>. Rounding to the nearest double is monotone and keeps every integer
  below \<open>2^53\<close>, so a comparison of \<open>PFloat q\<close> with the integers 4 and 64 has the
  value of the comparison of \<open>q\<close>.
\<close>

datatype pyobj =
    PNone
  | PBool bool
  | PInt int
  | PFloat rat
  | PStr string
  | PList "pyobj list"
  | PDict "(string \<times> pyobj) list"

text \<open>The exceptions that leave a function of the script.\<close>

datatype py_error = TypeError | OSError | ValueError | UnicodeEncodeError

text \<open>Truth value testing, as \<open>if x\<close>, \<open>x or y\<close> and \<open>bool(x)\<close> do it.\<close>

fun truthy :: "pyobj \<Rightarrow> bool" where
  "truthy PNone = False"
| "truthy (PBool b) = b"
| "truthy (PInt i) = (i \<noteq> 0)"
| "truthy (PFloat q) = (q \<noteq> 0)"
| "truthy (PStr s) = (s \<noteq> [])"
| "truthy (PList xs) = (xs \<noteq> [])"
| "truthy (PDict kv) = (kv \<noteq> [])"

text \<open>\<open>isinstance(v, (int, float))\<close>; \<open>bool\<close> is a subclass of \<open>int\<close>.\<close>

fun is_int_or_float :: "pyobj \<Rightarrow> bool" where
  "is_int_or_float (PBool b) = True"
| "is_int_or_float (PInt i) = True"
| "is_int_or_float (PFloat q) = True"
| "is_int_or_float v = False"

text \<open>
  \<open>v >= n\<close> for an integer literal \<open>n\<close>. A number is compared by value; \<open>None\<close>, a
  string, a list and a dict raise \<open>TypeError\<close> in Python 3.
\<close>

fun py_ge :: "pyobj \<Rightarrow> int \<Rightarrow> py_error + bool" where
  "py_ge (PBool b) n = Inr (n \<le> (if b then 1 else 0))"
| "py_ge (PInt i) n = Inr (n \<le> i)"
| "py_ge (PFloat q) n = Inr (of_int n \<le> q)"
| "py_ge v n = Inl TypeError"

section \<open>Strings\<close>

text \<open>\<open>sub in s\<close>: \<open>sub\<close> occurs in \<open>s\<close> as a contiguous run.\<close>

fun starts_with :: "string \<Rightarrow> string \<Rightarrow> bool" where
  "starts_with [] s = True"
| "starts_with (c # cs) [] = False"
| "starts_with (c # cs) (d # ds) = (c = d \<and> starts_with cs ds)"

fun py_in :: "string \<Rightarrow> string \<Rightarrow> bool" where
  "py_in sub [] = (sub = [])"
| "py_in sub (d # ds) = (starts_with sub (d # ds) \<or> py_in sub ds)"

text \<open>
  \<open>str.lower\<close> and \<open>str.upper\<close> on the ASCII letters. The bytes of a non-ASCII
  character are kept: no such character has a lower case among the ASCII letters of
  \<open>true\<close> and \<open>false\<close>, the only words a lowered string is compared with.
\<close>

definition lower_char :: "char \<Rightarrow> char" where
  "lower_char c =
     (let n = (of_char c :: nat) in if 65 \<le> n \<and> n \<le> 90 then char_of (n + 32) else c)"

definition upper_char :: "char \<Rightarrow> char" where
  "upper_char c =
     (let n = (of_char c :: nat) in if 97 \<le> n \<and> n \<le> 122 then char_of (n - 32) else c)"

definition is_alpha :: "char \<Rightarrow> bool" where
  "is_alpha c =
     (let n = (of_char c :: nat) in (65 \<le> n \<and> n \<le> 90) \<or> (97 \<le> n \<and> n \<le> 122))"

definition py_lower :: "string \<Rightarrow> string" where
  "py_lower s = map lower_char s"

text \<open>
  \<open>str.title\<close>: a letter that follows a letter is lowered, any other letter is raised.
  The flag says whether the previous character was a letter.
\<close>

fun title_from :: "bool \<Rightarrow> string \<Rightarrow> string" where
  "title_from prev [] = []"
| "title_from prev (c # cs) =
     (if prev then lower_char c else upper_char c) # title_from (is_alpha c) cs"

definition py_title :: "string \<Rightarrow> string" where
  "py_title s = title_from False s"

section \<open>Helpers of the script\<close>

text \<open>
  \<open>round(x, 2)\<close>: the decimal with two places nearest to \<open>x\<close>, a tie going to the
  even neighbour.
\<close>

definition round_half_even :: "rat \<Rightarrow> int" where
  "round_half_even x =
     (let f = \<lfloor>x\<rfloor>; d = x - of_int f
      in if d < 1 / 2 then f else if 1 / 2 < d then f + 1 else if even f then f else f + 1)"

definition py_round2 :: "rat \<Rightarrow> rat" where
  "py_round2 x = of_int (round_half_even (x * 100)) / 100"

text \<open>
  \<open>bytes_to_gb\<close>: \<open>round(b / (1024 ** 3), 2)\<close>, and \<open>None\<close> when the expression
  raises. The division raises \<open>TypeError\<close> on a value that is not a number and
  \<open>OverflowError\<close> on an integer whose quotient is beyond the largest double; an
  integer below \<open>2^53\<close> is divided exactly.
\<close>

definition float_overflows :: "rat \<Rightarrow> bool" where
  "float_overflows q = (2 ^ 1024 - 2 ^ 970 \<le> \<bar>q\<bar>)"

fun bytes_to_gb :: "pyobj \<Rightarrow> pyobj" where
  "bytes_to_gb (PInt b) =
     (if float_overflows (of_int b / 1024 ^ 3) then PNone
      else PFloat (py_round2 (of_int b / 1024 ^ 3)))"
| "bytes_to_gb (PBool b) = PFloat (py_round2 ((if b then 1 else 0) / 1024 ^ 3))"
| "bytes_to_gb (PFloat x) = PFloat (py_round2 (x / 1024 ^ 3))"
| "bytes_to_gb v = PNone"

text \<open>
  \<open>str.strip()\<close> removes white space at both ends (the ASCII white space of Python:
  tab, line feed, vertical tab, form feed, carriage return, the four separators
  \<open>0x1C\<close> to \<open>0x1F\<close> and the space); \<open>str.strip("\x00")\<close> removes NUL characters.
\<close>

definition is_space :: "char \<Rightarrow> bool" where
  "is_space c = (let n = (of_char c :: nat) in (9 \<le> n \<and> n \<le> 13) \<or> (28 \<le> n \<and> n \<le> 32))"

definition strip_chars :: "(char \<Rightarrow> bool) \<Rightarrow> string \<Rightarrow> string" where
  "strip_chars p s = rev (dropWhile p (rev (dropWhile p s)))"

definition py_strip :: "string \<Rightarrow> string" where
  "py_strip s = strip_chars is_space s"

definition strip_nul :: "string \<Rightarrow> string" where
  "strip_nul s = strip_chars (\<lambda>c. c = CHR 0x00) s"

text \<open>\<open>sep.join(xs)\<close>.\<close>

fun py_join :: "string \<Rightarrow> string list \<Rightarrow> string" where
  "py_join sep [] = []"
| "py_join sep [x] = x"
| "py_join sep (x # y # ys) = x @ sep @ py_join sep (y # ys)"

section \<open>Running an external command\<close>

text \<open>
  \<open>subprocess.run\<close> either completes, with a return code and the two captured
  streams, or raises an \<open>Exception\<close> (\<open>TimeoutExpired\<close> when the time given is over,
  \<open>OSError\<close>, a decoding error), of which \<open>safe_run\<close> keeps the text. It is a
  parameter of the model, applied to the command and the timeout.
\<close>

datatype run_outcome =
    Completed int string string
  | Raised string

type_synonym runner = "string \<Rightarrow> nat \<Rightarrow> run_outcome"

definition safe_run :: "runner \<Rightarrow> string \<Rightarrow> nat \<Rightarrow> bool \<times> string" where
  "safe_run run cmd timeout =
     (case run cmd timeout of
        Completed returncode stdout stderr \<Rightarrow>
          (let out = py_strip stdout; err = py_strip stderr
           in if returncode = 0 then (True, out)
              else (False, if out \<noteq> [] then out else err))
      | Raised e \<Rightarrow> (False, e))"

text \<open>The default of the parameter \<open>timeout\<close>, which every caller leaves as it is.\<close>

definition default_timeout :: nat where
  "default_timeout = 8"

section \<open>The probes\<close>

definition desconhecido :: string where
  "desconhecido = ''Desconhecido''"

subsection \<open>CPU, memory and disk\<close>

text \<open>
  \<open>get_cpu_info\<close>: the first processor that WMI lists, and the values of
  \<open>platform\<close> and \<open>psutil\<close> when there is no \<open>wmi\<close> module, the query raises, lists
  nothing, or the name is not a string (\<open>strip\<close> raises, the bare \<open>except\<close> catches).
  \<open>psutil.cpu_count(logical=False)\<close> is an integer, or \<open>None\<close> when the number of
  cores is undetermined. The query is given as the list of pairs of \<open>Name\<close> and
  \<open>NumberOfCores\<close>, or nothing.
\<close>

definition get_cpu_info ::
  "(pyobj \<times> pyobj) list option \<Rightarrow> string \<Rightarrow> pyobj \<Rightarrow> string \<times> pyobj" where
  "get_cpu_info wmi_processors platform_processor psutil_cpu_count =
     (case wmi_processors of
        Some ((PStr name, cores) # rest) \<Rightarrow> (py_strip name, cores)
      | _ \<Rightarrow> (platform_processor, psutil_cpu_count))"

definition get_ram_gb :: "pyobj \<Rightarrow> pyobj" where
  "get_ram_gb virtual_memory_total = bytes_to_gb virtual_memory_total"

text \<open>
  \<open>get_disk_info\<close>: \<open>psutil.disk_usage\<close> gives the total and the free bytes, or
  raises (no value).
\<close>

definition get_disk_info :: "(pyobj \<times> pyobj) option \<Rightarrow> pyobj \<times> pyobj" where
  "get_disk_info disk_usage =
     (case disk_usage of
        Some (usage_total, usage_free) \<Rightarrow> (bytes_to_gb usage_total, bytes_to_gb usage_free)
      | None \<Rightarrow> (PStr desconhecido, PStr desconhecido))"

subsection \<open>TPM\<close>

record tpm_info =
  status :: string
  enabled :: string
  version :: string
  manufacturer :: string
  is_tpm20 :: bool
  raw :: pyobj

definition tpm_cmd :: string where
  \<open>tpm_cmd = ''powershell -Command "Get-Tpm | ConvertTo-Json -Depth 4"''\<close>

text \<open>\<open>j.get(key, default)\<close> on a dict.\<close>

definition dict_get :: "(string \<times> pyobj) list \<Rightarrow> string \<Rightarrow> pyobj \<Rightarrow> pyobj" where
  "dict_get kv key dflt = (case map_of kv key of Some v \<Rightarrow> v | None \<Rightarrow> dflt)"

text \<open>
  \<open>(j.get(key) or "").strip("\x00")\<close>: a value that is true and not a string has
  no \<open>strip\<close>, which raises \<open>AttributeError\<close> (no value).
\<close>

definition text_field :: "(string \<times> pyobj) list \<Rightarrow> string \<Rightarrow> string option" where
  "text_field kv key =
     (let v = dict_get kv key PNone
      in if truthy v then (case v of PStr s \<Rightarrow> Some (strip_nul s) | _ \<Rightarrow> None)
         else Some (strip_nul []))"

definition or_else :: "string \<Rightarrow> string \<Rightarrow> string" where
  "or_else a b = (if a \<noteq> [] then a else b)"

text \<open>
  The body of the \<open>try\<close>, after \<open>json.loads\<close>: no value when it raises, which it
  does when the payload is not an object (\<open>get\<close> is missing) and when a text field
  is not text.
\<close>

definition tpm_from_json :: "string \<Rightarrow> pyobj \<Rightarrow> tpm_info option" where
  "tpm_from_json out j =
     (case j of
        PDict kv \<Rightarrow>
          (let tpm_present = dict_get kv ''TpmPresent'' (PBool False);
               tpm_enabled = dict_get kv ''TpmEnabled'' (PBool False);
               tpm_ready = dict_get kv ''TpmReady'' (PBool False)
           in case text_field kv ''SpecVersion'' of
                None \<Rightarrow> None
              | Some spec_ver \<Rightarrow>
             (case text_field kv ''ManufacturerVersionFull20'' of
                None \<Rightarrow> None
              | Some manuf_ver \<Rightarrow>
             (case text_field kv ''ManufacturerIdTxt'' of
                None \<Rightarrow> None
              | Some manuf \<Rightarrow>
                  Some \<lparr> status = (if truthy tpm_present then ''Presente'' else ''Ausente''),
                         enabled = (if truthy tpm_enabled \<or> truthy tpm_ready
                                    then ''Ativado'' else ''Desativado''),
                         version = or_else manuf_ver (or_else spec_ver desconhecido),
                         manufacturer = or_else manuf desconhecido,
                         is_tpm20 = (manuf_ver \<noteq> [] \<or> py_in ''Full20'' out
                                     \<or> py_in ''2.0'' spec_ver),
                         raw = j \<rparr>)))
      | _ \<Rightarrow> None)"

definition tpm_unknown :: "string \<Rightarrow> tpm_info" where
  "tpm_unknown out =
     \<lparr> status = desconhecido, enabled = desconhecido, version = desconhecido,
       manufacturer = desconhecido, is_tpm20 = False, raw = PStr out \<rparr>"

text \<open>
  \<open>get_tpm_info\<close>; \<open>json.loads\<close> is a parameter, with no value where it raises.
\<close>

definition get_tpm_info :: "runner \<Rightarrow> (string \<Rightarrow> pyobj option) \<Rightarrow> tpm_info" where
  "get_tpm_info run json_loads =
     (case safe_run run tpm_cmd default_timeout of
        (ok, out) \<Rightarrow>
          if ok \<and> out \<noteq> [] then
            (case json_loads out of
               None \<Rightarrow> tpm_unknown out
             | Some j \<Rightarrow>
                 (case tpm_from_json out j of
                    None \<Rightarrow> tpm_unknown out
                  | Some t \<Rightarrow> t))
          else tpm_unknown out)"

subsection \<open>Secure Boot and firmware\<close>

definition secure_boot_cmd :: string where
  \<open>secure_boot_cmd = ''powershell -Command "Confirm-SecureBootUEFI"''\<close>

definition indisponivel :: string where
  "indisponivel = ''Indispon'' @ [CHR 0xC3, CHR 0xAD] @ ''vel''"

definition get_secure_boot_status :: "runner \<Rightarrow> string" where
  "get_secure_boot_status run =
     (case safe_run run secure_boot_cmd default_timeout of
        (ok, out) \<Rightarrow>
          if ok \<and> (py_lower out = ''true'' \<or> py_lower out = ''false'') then py_title out
          else indisponivel)"

definition cim_cmd :: string where
  \<open>cim_cmd =
     ''powershell -Command "(Get-CimInstance -ClassName Win32_ComputerSystem).SystemFirmwareType"''\<close>

definition wmi_cmd :: string where
  \<open>wmi_cmd =
     ''powershell -Command "(Get-WmiObject -Class Win32_ComputerSystem).SystemFirmwareType"''\<close>

definition efi_paths :: "string list" where
  "efi_paths =
     [''C:'' @ [CHR 0x5C] @ ''EFI'',
      ''C:'' @ [CHR 0x5C] @ ''Boot'' @ [CHR 0x5C] @ ''EFI'',
      ''C:'' @ [CHR 0x5C] @ ''Windows'' @ [CHR 0x5C] @ ''Boot'' @ [CHR 0x5C] @ ''EFI'']"

definition says_uefi :: "bool \<times> string \<Rightarrow> bool" where
  "says_uefi r = (case r of (ok, out) \<Rightarrow> ok \<and> py_strip out \<in> set [''2'', ''UEFI'', ''uefi''])"

definition says_bios :: "bool \<times> string \<Rightarrow> bool" where
  "says_bios r = (case r of (ok, out) \<Rightarrow> ok \<and> py_strip out \<in> set [''1'', ''BIOS'', ''bios''])"

text \<open>
  \<open>get_firmware_type\<close>: the CIM query, then the WMI query, then the EFI folders.
  Nothing in the \<open>try\<close> raises (\<open>safe_run\<close> and \<open>os.path.exists\<close> do not), so
  the handler is never reached. \<open>os.path.exists\<close> is a parameter.
\<close>

definition get_firmware_type :: "runner \<Rightarrow> (string \<Rightarrow> bool) \<Rightarrow> string" where
  "get_firmware_type run path_exists =
     (let r1 = safe_run run cim_cmd default_timeout
      in if says_uefi r1 then ''UEFI''
         else if says_bios r1 then ''Legacy/BIOS''
         else
           (let r2 = safe_run run wmi_cmd default_timeout
            in if says_uefi r2 then ''UEFI''
               else if says_bios r2 then ''Legacy/BIOS''
               else if list_ex path_exists efi_paths then ''UEFI''
               else desconhecido))"

section \<open>The report\<close>

text \<open>What \<open>build_report\<close> has collected from the probes when it evaluates.\<close>

record facts =
  host :: string
  user :: string
  os_info :: string
  arch :: string
  manu :: string
  model :: string
  cpu_name :: string
  cpu_cores :: pyobj
  ram_gb :: pyobj
  disk_total :: pyobj
  disk_free :: pyobj
  gpu :: string
  tpm :: tpm_info
  secure_boot :: string
  firmware :: string

text \<open>An exception that nothing catches ends the evaluation of what follows.\<close>

definition bind_err :: "py_error + 'a \<Rightarrow> ('a \<Rightarrow> py_error + 'b) \<Rightarrow> py_error + 'b" where
  "bind_err r k = (case r of Inl e \<Rightarrow> Inl e | Inr v \<Rightarrow> k v)"

subsection \<open>The seven checks\<close>

text \<open>\<open>ram_gb >= 4\<close> and \<open>cpu_cores >= 2\<close>.\<close>

definition ram_check :: "pyobj \<Rightarrow> py_error + bool" where
  "ram_check v = py_ge v 4"

definition cpu_check :: "pyobj \<Rightarrow> py_error + bool" where
  "cpu_check v = py_ge v 2"

text \<open>\<open>isinstance(disk_total, (int, float)) and disk_total >= 64\<close>.\<close>

definition disk_check :: "pyobj \<Rightarrow> py_error + bool" where
  "disk_check v = (if is_int_or_float v then py_ge v 64 else Inr False)"

definition tpm_check :: "tpm_info \<Rightarrow> bool" where
  "tpm_check t = (is_tpm20 t \<and> py_in ''Ativado'' (enabled t))"

definition firmware_check :: "string \<Rightarrow> bool" where
  "firmware_check fw = py_in ''UEFI'' fw"

definition secure_boot_check :: "string \<Rightarrow> bool" where
  "secure_boot_check sb = (py_lower sb = ''true'')"

definition arch_check :: "string \<Rightarrow> bool" where
  "arch_check a = py_in ''64'' a"

text \<open>
  The dict \<open>checks\<close>, in the order of its keys; its values are evaluated in that
  order, and the first that raises ends \<open>build_report\<close>.
\<close>

definition checks :: "facts \<Rightarrow> py_error + (string \<times> bool) list" where
  "checks f =
     bind_err (ram_check (ram_gb f)) (\<lambda>ram_ok.
     bind_err (cpu_check (cpu_cores f)) (\<lambda>cpu_ok.
     bind_err (disk_check (disk_total f)) (\<lambda>disk_ok.
       Inr [(''RAM'', ram_ok),
            (''CPU'', cpu_ok),
            (''Disco'', disk_ok),
            (''TPM'', tpm_check (tpm f)),
            (''Firmware'', firmware_check (firmware f)),
            (''SecureBoot'', secure_boot_check (secure_boot f)),
            (''Arquitetura'', arch_check (arch f))])))"

text \<open>\<open>all(checks.values())\<close> and \<open>[k for k, ok in checks.items() if not ok]\<close>.\<close>

definition fully_compatible :: "(string \<times> bool) list \<Rightarrow> bool" where
  "fully_compatible cs = list_all (\<lambda>(k, ok). ok) cs"

definition faltando :: "(string \<times> bool) list \<Rightarrow> string list" where
  "faltando cs = map fst (filter (\<lambda>(k, ok). \<not> ok) cs)"

subsection \<open>The text\<close>

definition em_dash :: string where
  "em_dash = [CHR 0xE2, CHR 0x80, CHR 0x94]"

definition ge_sign :: string where
  "ge_sign = [CHR 0xE2, CHR 0x89, CHR 0xA5]"

definition newline :: string where
  "newline = [CHR 0x0A]"

definition check_requirement :: "bool \<Rightarrow> string" where
  "check_requirement condition =
     (if condition
      then [CHR 0xE2, CHR 0x9C, CHR 0x94, CHR 0xEF, CHR 0xB8, CHR 0x8F]
             @ '' Compat'' @ [CHR 0xC3, CHR 0xAD] @ ''vel''
      else [CHR 0xE2, CHR 0x9D, CHR 0x8C] @ '' N'' @ [CHR 0xC3, CHR 0xA3]
             @ ''o compat'' @ [CHR 0xC3, CHR 0xAD] @ ''vel'')"

text \<open>
  A value in an f-string: a string stands for itself, any other value is rendered by
  Python's \<open>str\<close>, a parameter.
\<close>

definition fmt :: "(pyobj \<Rightarrow> string) \<Rightarrow> pyobj \<Rightarrow> string" where
  "fmt str_of v = (case v of PStr s \<Rightarrow> s | _ \<Rightarrow> str_of v)"

definition title_lines :: "string list" where
  "title_lines =
     [''Relat'' @ [CHR 0xC3, CHR 0xB3] @ ''rio de Compatibilidade com Windows 11 + Simula''
        @ [CHR 0xC3, CHR 0xA7, CHR 0xC3, CHR 0xA3] @ ''o Visual'' @ newline]"

definition identification_lines :: "facts \<Rightarrow> string list" where
  "identification_lines f =
     [''1. Dados de Identifica'' @ [CHR 0xC3, CHR 0xA7, CHR 0xC3, CHR 0xA3]
        @ ''o e Sistema:'' @ newline,
      ''- Nome da M'' @ [CHR 0xC3, CHR 0xA1] @ ''quina: '' @ host f,
      ''- Usu'' @ [CHR 0xC3, CHR 0xA1] @ ''rio Logado: '' @ user f,
      ''- Sistema Operacional: '' @ os_info f,
      ''- Arquitetura do SO: '' @ arch f @ '' '' @ em_dash @ '' ''
        @ check_requirement (arch_check (arch f)),
      ''- Fabricante: '' @ manu f,
      ''- Modelo: '' @ model f @ newline]"

text \<open>
  The lines of section 2 evaluate \<open>ram_gb >= 4\<close>, \<open>cpu_cores >= 2\<close> and
  \<open>disk_total >= 64\<close> again. The line of the disk is appended only when
  \<open>disk_total\<close> is a number.
\<close>

definition disk_lines :: "(pyobj \<Rightarrow> string) \<Rightarrow> pyobj \<Rightarrow> py_error + string list" where
  "disk_lines str_of v =
     (if is_int_or_float v
      then bind_err (py_ge v 64) (\<lambda>disk_ok.
             Inr [''- Disco C: '' @ fmt str_of v @ '' GB '' @ em_dash @ '' ''
                    @ check_requirement disk_ok @ '' ('' @ ge_sign @ '' 64 GB)''])
      else Inr [])"

definition hardware_lines :: "(pyobj \<Rightarrow> string) \<Rightarrow> facts \<Rightarrow> py_error + string list" where
  "hardware_lines str_of f =
     bind_err (ram_check (ram_gb f)) (\<lambda>ram_ok.
     bind_err (cpu_check (cpu_cores f)) (\<lambda>cpu_ok.
     bind_err (disk_lines str_of (disk_total f)) (\<lambda>disk.
       Inr ([''2. Hardware:'' @ newline,
             ''- Mem'' @ [CHR 0xC3, CHR 0xB3] @ ''ria RAM: '' @ fmt str_of (ram_gb f)
               @ '' GB '' @ em_dash @ '' '' @ check_requirement ram_ok
               @ '' ('' @ ge_sign @ '' 4 GB)'',
             ''- CPU: '' @ cpu_name f @ '' ('' @ fmt str_of (cpu_cores f)
               @ '' n'' @ [CHR 0xC3, CHR 0xBA] @ ''cleos) '' @ em_dash @ '' ''
               @ check_requirement cpu_ok]
            @ disk
            @ [''- GPU: '' @ gpu f @ '' '' @ em_dash @ '' ''
                 @ check_requirement (gpu f \<noteq> desconhecido) @ newline]))))"

definition security_lines :: "facts \<Rightarrow> string list" where
  "security_lines f =
     [''3. Seguran'' @ [CHR 0xC3, CHR 0xA7] @ ''a e Firmware:'' @ newline,
      ''- TPM: '' @ status (tpm f) @ '' / '' @ enabled (tpm f) @ '' '' @ em_dash @ '' ''
        @ check_requirement (py_in ''Ativado'' (enabled (tpm f))),
      ''- Vers'' @ [CHR 0xC3, CHR 0xA3] @ ''o TPM: '' @ version (tpm f) @ '' '' @ em_dash
        @ '' '' @ check_requirement (is_tpm20 (tpm f)) @ '' (Requisito: 2.0)'',
      ''- Firmware: '' @ firmware f @ '' '' @ em_dash @ '' ''
        @ check_requirement (firmware_check (firmware f)) @ '' (Requisito: UEFI)'',
      ''- Secure Boot: '' @ secure_boot f @ '' '' @ em_dash @ '' ''
        @ check_requirement (secure_boot_check (secure_boot f))
        @ '' (Requisito: Ativado)'' @ newline]"

definition itens_prefix :: string where
  "itens_prefix =
     ''Itens n'' @ [CHR 0xC3, CHR 0xA3] @ ''o compat'' @ [CHR 0xC3, CHR 0xAD] @ ''veis: ''"

definition summary_lines :: "(string \<times> bool) list \<Rightarrow> string list" where
  "summary_lines cs =
     ''Resumo Geral:'' #
     (if fully_compatible cs
      then [[CHR 0xE2, CHR 0x9C, CHR 0x85] @ '' Este computador '' @ [CHR 0xC3, CHR 0xA9]
              @ '' TOTALMENTE compat'' @ [CHR 0xC3, CHR 0xAD] @ ''vel com o Windows 11.'']
      else [[CHR 0xE2, CHR 0x9A, CHR 0xA0, CHR 0xEF, CHR 0xB8, CHR 0x8F]
              @ '' Este computador N'' @ [CHR 0xC3, CHR 0x83]
              @ ''O atende a todos os requisitos do Windows 11.'',
            itens_prefix @ py_join '', '' (faltando cs)])"

definition debug_lines :: "(pyobj \<Rightarrow> string) \<Rightarrow> facts \<Rightarrow> bool \<Rightarrow> string list" where
  "debug_lines str_of f debug =
     (if debug then [newline @ ''[DEBUG] TPM RAW:'', fmt str_of (raw (tpm f))] else [])"

text \<open>
  The part of \<open>build_report\<close> after the probes: the report and the host name, or the
  exception that ended it.
\<close>

definition report_of ::
  "(pyobj \<Rightarrow> string) \<Rightarrow> facts \<Rightarrow> bool \<Rightarrow> py_error + string \<times> string" where
  "report_of str_of f debug =
     bind_err (checks f) (\<lambda>cs.
     bind_err (hardware_lines str_of f) (\<lambda>hardware.
       Inr (py_join newline
              (title_lines @ identification_lines f @ hardware @ security_lines f
                 @ summary_lines cs @ debug_lines str_of f debug),
            host f)))"

subsection \<open>The host\<close>

text \<open>
  What the probes read. The results of the probes that only fetch a text
  (\<open>get_hostname\<close>, \<open>get_current_user\<close>, \<open>get_os_info\<close>,
  \<open>get_manufacturer_model\<close>, \<open>get_gpu_names\<close>) are given as they are.
\<close>

record host_env =
  hostname :: string
  current_user :: string
  os_info_arch :: "string \<times> string"
  manufacturer_model :: "string \<times> string"
  wmi_processors :: "(pyobj \<times> pyobj) list option"
  platform_processor :: string
  psutil_cpu_count :: pyobj
  virtual_memory_total :: pyobj
  disk_usage :: "(pyobj \<times> pyobj) option"
  gpu_names :: string
  subprocess_run :: runner
  json_loads :: "string \<Rightarrow> pyobj option"
  path_exists :: "string \<Rightarrow> bool"
  py_str :: "pyobj \<Rightarrow> string"

definition gather :: "host_env \<Rightarrow> facts" where
  "gather env =
     (let cpu = get_cpu_info (wmi_processors env) (platform_processor env) (psutil_cpu_count env);
          disk = get_disk_info (disk_usage env)
      in \<lparr> host = hostname env,
           user = current_user env,
           os_info = fst (os_info_arch env),
           arch = snd (os_info_arch env),
           manu = fst (manufacturer_model env),
           model = snd (manufacturer_model env),
           cpu_name = fst cpu,
           cpu_cores = snd cpu,
           ram_gb = get_ram_gb (virtual_memory_total env),
           disk_total = fst disk,
           disk_free = snd disk,
           gpu = gpu_names env,
           tpm = get_tpm_info (subprocess_run env) (json_loads env),
           secure_boot = get_secure_boot_status (subprocess_run env),
           firmware = get_firmware_type (subprocess_run env) (path_exists env) \<rparr>)"

definition build_report :: "host_env \<Rightarrow> bool \<Rightarrow> py_error + string \<times> string" where
  "build_report env debug = report_of (py_str env) (gather env) debug"

section \<open>Writing the file\<close>

text \<open>
  \<open>write_output_file\<close> is about the bytes that reach the disk, so in this section
  a \<open>str\<close> is the list of its code points and the encoding is a function. Elsewhere
  a \<open>str\<close> is given by the bytes that \<open>utf8_encode\<close> makes of it.
\<close>

type_synonym ustr = "nat list"

definition ascii :: "string \<Rightarrow> ustr" where
  "ascii s = map of_char s"

text \<open>
  The UTF-8 encoding of a code point, and none for a surrogate, on which
  \<open>str.encode\<close> raises \<open>UnicodeEncodeError\<close>. A \<open>str\<close> holds no number from
  \<open>0x110000\<close> on.
\<close>

definition utf8_char :: "nat \<Rightarrow> char list option" where
  "utf8_char c =
     (if c < 0x80 then Some [char_of c]
      else if c < 0x800 then Some [char_of (0xC0 + c div 64), char_of (0x80 + c mod 64)]
      else if 0xD800 \<le> c \<and> c \<le> 0xDFFF then None
      else if c < 0x10000 then
        Some [char_of (0xE0 + c div 4096), char_of (0x80 + c div 64 mod 64),
              char_of (0x80 + c mod 64)]
      else if c < 0x110000 then
        Some [char_of (0xF0 + c div 262144), char_of (0x80 + c div 4096 mod 64),
              char_of (0x80 + c div 64 mod 64), char_of (0x80 + c mod 64)]
      else None)"

fun utf8_encode :: "ustr \<Rightarrow> char list option" where
  "utf8_encode [] = Some []"
| "utf8_encode (c # cs) =
     (case utf8_char c of
        None \<Rightarrow> None
      | Some bytes \<Rightarrow>
          (case utf8_encode cs of None \<Rightarrow> None | Some rest \<Rightarrow> Some (bytes @ rest)))"

text \<open>
  A file opened in text mode with the default \<open>newline\<close> writes each line feed as
  \<open>os.linesep\<close>, which on Windows is a carriage return and a line feed.
\<close>

definition translate_newlines :: "ustr \<Rightarrow> ustr \<Rightarrow> ustr" where
  "translate_newlines linesep s = concat (map (\<lambda>c. if c = 10 then linesep else [c]) s)"

subsection \<open>Paths of Windows\<close>

text \<open>
  \<open>os.path\<close> on Windows, as far as the paths of the script go: the separators are
  the backslash (92) and the slash (47), and a drive is a character followed by a
  colon (58). A UNC prefix is not taken for a drive; it stays in the path part.
\<close>

definition is_sep :: "nat \<Rightarrow> bool" where
  "is_sep c = (c = 92 \<or> c = 47)"

definition splitdrive :: "ustr \<Rightarrow> ustr \<times> ustr" where
  "splitdrive p = (if 2 \<le> length p \<and> p ! 1 = 58 then (take 2 p, drop 2 p) else ([], p))"

definition lower_cp :: "nat \<Rightarrow> nat" where
  "lower_cp c = (if 65 \<le> c \<and> c \<le> 90 then c + 32 else c)"

text \<open>
  \<open>os.path.join\<close> of two components. A second component with a root replaces the
  path, and the drive too if it has one or the first has none; one on another drive
  replaces the first; otherwise it is appended, after a backslash unless the first
  path is empty or ends with a separator.
\<close>

definition path_join :: "ustr \<Rightarrow> ustr \<Rightarrow> ustr" where
  "path_join path p =
     (case splitdrive path of (result_drive, result_path) \<Rightarrow>
      case splitdrive p of (p_drive, p_path) \<Rightarrow>
        if p_path \<noteq> [] \<and> is_sep (hd p_path) then
          (if p_drive \<noteq> [] \<or> result_drive = [] then p_drive else result_drive) @ p_path
        else if p_drive \<noteq> [] \<and> p_drive \<noteq> result_drive
                \<and> map lower_cp p_drive \<noteq> map lower_cp result_drive then
          p_drive @ p_path
        else
          (if p_drive \<noteq> [] \<and> p_drive \<noteq> result_drive then p_drive else result_drive)
          @ (if result_path \<noteq> [] \<and> \<not> is_sep (last result_path)
             then result_path @ [92] else result_path)
          @ p_path)"

text \<open>
  \<open>os.path.split\<close>: the tail is what follows the last separator, the head what
  precedes it, without its trailing separators unless it has nothing else;
  \<open>dirname\<close> and \<open>basename\<close> are the two parts.
\<close>

definition path_split :: "ustr \<Rightarrow> ustr \<times> ustr" where
  "path_split p =
     (case splitdrive p of (d, r) \<Rightarrow>
        let tail = rev (takeWhile (\<lambda>c. \<not> is_sep c) (rev r));
            head = rev (dropWhile (\<lambda>c. \<not> is_sep c) (rev r));
            stripped = rev (dropWhile is_sep (rev head))
        in (d @ (if stripped \<noteq> [] then stripped else head), tail))"

definition path_dirname :: "ustr \<Rightarrow> ustr" where
  "path_dirname p = fst (path_split p)"

definition path_basename :: "ustr \<Rightarrow> ustr" where
  "path_basename p = snd (path_split p)"

text \<open>
  \<open>os.path.isabs\<close>, in the strict reading of Python 3.13: a drive followed by a
  separator, or two separators at the start. Such a path is absolute for the earlier
  versions too, which ask for a separator after the drive, if any.
\<close>

definition path_isabs :: "ustr \<Rightarrow> bool" where
  "path_isabs p =
     (case p of
        a # b # c # rest \<Rightarrow> (b = 58 \<and> is_sep c) \<or> (is_sep a \<and> is_sep b)
      | [a, b] \<Rightarrow> is_sep a \<and> is_sep b
      | _ \<Rightarrow> False)"

subsection \<open>Files\<close>

text \<open>
  The files are a map from a path to the bytes stored. \<open>can_open\<close> says where
  \<open>open\<close> in mode \<open>w\<close> succeeds; it creates the file or empties the one that
  is there. \<open>room\<close> is the number of bytes that the device still takes for a
  file: a longer write stores that many and raises \<open>OSError\<close>. The process gives
  \<open>sys.frozen\<close> (as a truth value), \<open>sys.executable\<close>, \<open>os.getcwd()\<close> and
  \<open>os.linesep\<close>.
\<close>

record file_system =
  files :: "ustr \<rightharpoonup> char list"
  can_open :: "ustr \<Rightarrow> bool"
  room :: "ustr \<Rightarrow> nat"

record process_env =
  frozen :: bool
  executable :: ustr
  getcwd :: ustr
  linesep :: ustr

definition store :: "file_system \<Rightarrow> ustr \<Rightarrow> char list \<Rightarrow> file_system" where
  "store fs p bytes = fs\<lparr>files := (files fs)(p \<mapsto> bytes)\<rparr>"

text \<open>
  \<open>write_output_file\<close> returns the files as they are afterwards with the path
  written, or with the exception. \<open>open\<close> raises \<open>ValueError\<close> on a path that holds
  a NUL and \<open>OSError\<close> where it cannot open, and leaves the files as they were.
  After that the file is empty; \<open>write\<close> translates the line feeds and encodes
  the text, which raises \<open>UnicodeEncodeError\<close> before any byte is stored, and
  the bytes are stored when the file is closed at the end of the \<open>with\<close> block.
\<close>

definition write_output_file ::
  "process_env \<Rightarrow> file_system \<Rightarrow> ustr \<Rightarrow> ustr \<Rightarrow> file_system \<times> (py_error + ustr)" where
  "write_output_file penv fs content hostname_arg =
     (let base_dir = (if frozen penv then path_dirname (executable penv) else getcwd penv);
          out_path = path_join base_dir (hostname_arg @ ascii ''.txt'')
      in if 0 \<in> set out_path then (fs, Inl ValueError)
         else if \<not> can_open fs out_path then (fs, Inl OSError)
         else
           (case utf8_encode (translate_newlines (linesep penv) content) of
              None \<Rightarrow> (store fs out_path [], Inl UnicodeEncodeError)
            | Some bytes \<Rightarrow>
                if length bytes \<le> room fs out_path
                then (store fs out_path bytes, Inr out_path)
                else (store fs out_path (take (room fs out_path) bytes), Inl OSError)))"

section \<open>Notions of the specification and examples\<close>

text \<open>The keys of \<open>checks\<close>, in the order of the dict.\<close>

definition categories :: "string list" where
  "categories = [''RAM'', ''CPU'', ''Disco'', ''TPM'', ''Firmware'', ''SecureBoot'', ''Arquitetura'']"

text \<open>A TPM 2.0 that is present and enabled.\<close>

definition sample_tpm :: tpm_info where
  "sample_tpm =
     \<lparr> status = ''Presente'', enabled = ''Ativado'', version = ''2.0'',
       manufacturer = ''INTC'', is_tpm20 = True, raw = PDict [] \<rparr>"

text \<open>A machine with 2 GB of memory and a TPM 1.2, otherwise compatible.\<close>

definition sample_facts :: facts where
  "sample_facts =
     \<lparr> host = ''PC01'', user = ''ana'', os_info = ''Windows 10'', arch = ''64bit'',
       manu = ''Dell Inc.'', model = ''OptiPlex'', cpu_name = ''Intel i5'',
       cpu_cores = PInt 4, ram_gb = PFloat 2, disk_total = PFloat 128,
       disk_free = PFloat 64, gpu = ''Intel UHD'',
       tpm = sample_tpm\<lparr>version := ''1.2'', is_tpm20 := False\<rparr>,
       secure_boot = ''True'', firmware = ''UEFI'' \<rparr>"

text \<open>
  A host without the \<open>wmi\<close> module on which \<open>psutil\<close> cannot tell the number of
  cores, every external command times out, the disk cannot be read and the EFI
  folders exist.
\<close>

definition sample_host :: host_env where
  "sample_host =
     \<lparr> hostname = ''PC01'',
       current_user = ''ana'',
       os_info_arch = (''Windows 10'', ''64bit''),
       manufacturer_model = (''Dell Inc.'', ''OptiPlex''),
       wmi_processors = None,
       platform_processor = ''Intel64 Family 6'',
       psutil_cpu_count = PNone,
       virtual_memory_total = PInt (8 * 1024 ^ 3),
       disk_usage = None,
       gpu_names = ''Intel UHD'',
       subprocess_run = (\<lambda>cmd timeout. Raised ''timed out''),
       json_loads = (\<lambda>s. None),
       path_exists = (\<lambda>p. True),
       py_str = (\<lambda>v. ''?'') \<rparr>"

text \<open>A payload of \<open>Get-Tpm\<close>: a TPM 2.0 that is ready and not enabled.\<close>

definition sample_tpm_json :: "(string \<times> pyobj) list" where
  "sample_tpm_json =
     [(''TpmPresent'', PBool True), (''TpmReady'', PBool True),
      (''TpmEnabled'', PBool False), (''SpecVersion'', PStr ''2.0'')]"

text \<open>
  The outcomes on which a probe is to degrade: an exception, the timeout among them,
  and an exit status other than zero.
\<close>

definition run_failed :: "run_outcome \<Rightarrow> bool" where
  "run_failed r =
     (case r of Completed returncode stdout stderr \<Rightarrow> returncode \<noteq> 0 | Raised e \<Rightarrow> True)"

text \<open>The line of the disk in section 2 of the report.\<close>

definition is_disk_line :: "string \<Rightarrow> bool" where
  "is_disk_line l = starts_with ''- Disco C:'' l"


text \<open>
  A host name that is a file name: it has no separator, no colon and no NUL.
\<close>

definition plain_name :: "ustr \<Rightarrow> bool" where
  "plain_name n = (\<forall>c \<in> set n. \<not> is_sep c \<and> c \<noteq> 58 \<and> c \<noteq> 0)"

text \<open>
  What \<open>os.path.join\<close> puts between a directory and a file name.
\<close>

definition sep_after :: "ustr \<Rightarrow> ustr" where
  "sep_after base = (if is_sep (last base) then [] else [92])"

text \<open>
  A script run from its source on Windows, in a working directory where an older
  report is present.
\<close>

definition sample_process :: process_env where
  "sample_process =
     \<lparr> frozen = False,
       executable = ascii ''C:'' @ [92] @ ascii ''Python'' @ [92] @ ascii ''python.exe'',
       getcwd = ascii ''C:'' @ [92] @ ascii ''tmp'',
       linesep = [13, 10] \<rparr>"

definition sample_path :: ustr where
  "sample_path = ascii ''C:'' @ [92] @ ascii ''tmp'' @ [92] @ ascii ''PC01.txt''"

definition sample_files :: file_system where
  "sample_files =
     \<lparr> files = [sample_path \<mapsto> ''old''], can_open = (\<lambda>p. True), room = (\<lambda>p. 4096) \<rparr>"

section \<open>Facts about the strings\<close>

lemma starts_with_iff: "starts_with sub s \<longleftrightarrow> (\<exists>post. s = sub @ post)"
  by (induction sub s rule: starts_with.induct) auto

lemma py_in_iff: "py_in sub s \<longleftrightarrow> (\<exists>pre post. s = pre @ sub @ post)"
proof (induction s)
  case Nil
  show ?case by auto
next
  case (Cons d ds)
  show ?case
  proof
    assume "py_in sub (d # ds)"
    then consider "starts_with sub (d # ds)" | "py_in sub ds" by auto
    then show "\<exists>pre post. d # ds = pre @ sub @ post"
    proof cases
      case 1
      then obtain post where "d # ds = sub @ post" by (auto simp: starts_with_iff)
      then have "d # ds = [] @ sub @ post" by simp
      then show ?thesis by blast
    next
      case 2
      then obtain pre post where "ds = pre @ sub @ post" using Cons.IH by auto
      then have "d # ds = (d # pre) @ sub @ post" by simp
      then show ?thesis by blast
    qed
  next
    assume "\<exists>pre post. d # ds = pre @ sub @ post"
    then obtain pre post where e: "d # ds = pre @ sub @ post" by auto
    show "py_in sub (d # ds)"
    proof (cases pre)
      case Nil
      with e have "starts_with sub (d # ds)" by (auto simp: starts_with_iff)
      then show ?thesis by simp
    next
      case (Cons p ps)
      with e have "ds = ps @ sub @ post" by simp
      then have "py_in sub ds" using Cons.IH by blast
      then show ?thesis by simp
    qed
  qed
qed

lemma of_char_lower:
  "(of_char (lower_char c) :: nat) =
     (let n = of_char c in if 65 \<le> n \<and> n \<le> 90 then n + 32 else n)"
  by (simp add: lower_char_def Let_def)

lemma char_eq_nat: "c = d \<longleftrightarrow> (of_char c :: nat) = of_char d"
  by simp

lemma lower_t: "lower_char c = CHR ''t'' \<longleftrightarrow> c = CHR ''t'' \<or> c = CHR ''T''"
  unfolding char_eq_nat [of "lower_char c"] char_eq_nat [of c] of_char_lower
  by (auto simp: Let_def)

lemma lower_upper: "lower_char (upper_char c) = lower_char c"
  unfolding char_eq_nat [of "lower_char (upper_char c)"] of_char_lower
  by (auto simp: Let_def upper_char_def)

lemma lower_lower: "lower_char (lower_char c) = lower_char c"
  unfolding char_eq_nat [of "lower_char (lower_char c)"] of_char_lower
  by (auto simp: Let_def)

lemma lower_r: "lower_char c = CHR ''r'' \<longleftrightarrow> c = CHR ''r'' \<or> c = CHR ''R''"
  unfolding char_eq_nat [of "lower_char c"] char_eq_nat [of c] of_char_lower
  by (auto simp: Let_def)

lemma lower_u: "lower_char c = CHR ''u'' \<longleftrightarrow> c = CHR ''u'' \<or> c = CHR ''U''"
  unfolding char_eq_nat [of "lower_char c"] char_eq_nat [of c] of_char_lower
  by (auto simp: Let_def)

lemma lower_e: "lower_char c = CHR ''e'' \<longleftrightarrow> c = CHR ''e'' \<or> c = CHR ''E''"
  unfolding char_eq_nat [of "lower_char c"] char_eq_nat [of c] of_char_lower
  by (auto simp: Let_def)

lemma map4_iff:
  "map f s = [a, b, c, d] \<longleftrightarrow>
     (\<exists>w x y z. s = [w, x, y, z] \<and> f w = a \<and> f x = b \<and> f y = c \<and> f z = d)"
  by (auto simp: map_eq_Cons_conv)

lemma py_lower_true_iff:
  "py_lower s = ''true'' \<longleftrightarrow>
     (\<exists>c1 c2 c3 c4. s = [c1, c2, c3, c4]
        \<and> (c1 = CHR ''t'' \<or> c1 = CHR ''T'') \<and> (c2 = CHR ''r'' \<or> c2 = CHR ''R'')
        \<and> (c3 = CHR ''u'' \<or> c3 = CHR ''U'') \<and> (c4 = CHR ''e'' \<or> c4 = CHR ''E''))"
  unfolding py_lower_def map4_iff lower_t lower_r lower_u lower_e ..

lemma py_lower_title_from: "py_lower (title_from prev s) = py_lower s"
  by (induction s arbitrary: prev) (simp_all add: py_lower_def lower_upper lower_lower)

lemma py_lower_title: "py_lower (py_title s) = py_lower s"
  by (simp add: py_title_def py_lower_title_from)


section \<open>The properties of the specification\<close>

subsection \<open>Secure Boot and architecture\<close>

lemma secure_boot_status_check:
  "secure_boot_check (get_secure_boot_status run) \<longleftrightarrow>
     fst (safe_run run secure_boot_cmd default_timeout)
     \<and> py_lower (snd (safe_run run secure_boot_cmd default_timeout)) = ''true''"
proof (cases "safe_run run secure_boot_cmd default_timeout")
  case (Pair ok out)
  have n: "py_lower indisponivel \<noteq> ''true''"
    by (simp add: py_lower_def indisponivel_def)
  have f: "py_lower out = ''false'' \<Longrightarrow> py_lower out \<noteq> ''true''"
    by simp
  show ?thesis
    unfolding get_secure_boot_status_def secure_boot_check_def Pair
    using n f by (simp add: py_lower_title)
qed

text \<open>
  Claim C6. The Secure Boot check passes exactly on the strings that are \<open>true\<close> up
  to the case of each letter, so \<open>True\<close>, \<open>TRUE\<close> and \<open>true\<close> pass and
  \<open>Unavailable\<close> and the sentinel of the probe fail; on the text the probe returns,
  it passes exactly when the command succeeded and printed \<open>true\<close> in some case.
\<close>

theorem secure_boot_case_insensitive:
  "(secure_boot_check sb \<longleftrightarrow>
      (\<exists>c1 c2 c3 c4. sb = [c1, c2, c3, c4]
         \<and> (c1 = CHR ''t'' \<or> c1 = CHR ''T'') \<and> (c2 = CHR ''r'' \<or> c2 = CHR ''R'')
         \<and> (c3 = CHR ''u'' \<or> c3 = CHR ''U'') \<and> (c4 = CHR ''e'' \<or> c4 = CHR ''E'')))
   \<and> secure_boot_check ''True'' \<and> secure_boot_check ''TRUE'' \<and> secure_boot_check ''true''
   \<and> \<not> secure_boot_check ''Unavailable'' \<and> \<not> secure_boot_check indisponivel
   \<and> (secure_boot_check (get_secure_boot_status run) \<longleftrightarrow>
        fst (safe_run run secure_boot_cmd default_timeout)
        \<and> py_lower (snd (safe_run run secure_boot_cmd default_timeout)) = ''true'')"
proof (intro conjI)
  show "secure_boot_check sb \<longleftrightarrow>
      (\<exists>c1 c2 c3 c4. sb = [c1, c2, c3, c4]
         \<and> (c1 = CHR ''t'' \<or> c1 = CHR ''T'') \<and> (c2 = CHR ''r'' \<or> c2 = CHR ''R'')
         \<and> (c3 = CHR ''u'' \<or> c3 = CHR ''U'') \<and> (c4 = CHR ''e'' \<or> c4 = CHR ''E''))"
    unfolding secure_boot_check_def by (rule py_lower_true_iff)
  show "secure_boot_check ''True''" "secure_boot_check ''TRUE''" "secure_boot_check ''true''"
    by (simp_all add: secure_boot_check_def py_lower_true_iff)
  show "\<not> secure_boot_check ''Unavailable''" "\<not> secure_boot_check indisponivel"
    by (simp_all add: secure_boot_check_def py_lower_true_iff indisponivel_def)
  show "secure_boot_check (get_secure_boot_status run) \<longleftrightarrow>
        fst (safe_run run secure_boot_cmd default_timeout)
        \<and> py_lower (snd (safe_run run secure_boot_cmd default_timeout)) = ''true''"
    by (rule secure_boot_status_check)
qed

text \<open>
  Claim C7. The architecture check passes exactly on the labels in which \<open>64\<close>
  occurs: \<open>64-bit\<close> passes, \<open>32-bit\<close> and the empty label fail.
\<close>

theorem arch_check_substring:
  "(arch_check a \<longleftrightarrow> (\<exists>pre post. a = pre @ ''64'' @ post))
   \<and> arch_check ''64-bit'' \<and> \<not> arch_check ''32-bit'' \<and> \<not> arch_check []"
proof (intro conjI)
  show "arch_check a \<longleftrightarrow> (\<exists>pre post. a = pre @ ''64'' @ post)"
    unfolding arch_check_def by (rule py_in_iff)
  show "arch_check ''64-bit''" "\<not> arch_check ''32-bit''" "\<not> arch_check []"
    by (simp_all add: arch_check_def)
qed

subsection \<open>The verdict\<close>

lemma faltando_map_of:
  "distinct (map fst cs) \<Longrightarrow>
     faltando cs = filter (\<lambda>k. map_of cs k = Some False) (map fst cs)"
proof (induction cs)
  case Nil
  show ?case by (simp add: faltando_def)
next
  case (Cons p cs)
  obtain k ok where p: "p = (k, ok)" by (cases p)
  from Cons.prems have d: "distinct (map fst cs)" and n: "k \<notin> fst ` set cs"
    by (simp_all add: p)
  have "filter (\<lambda>x. map_of (p # cs) x = Some False) (map fst cs)
          = filter (\<lambda>x. map_of cs x = Some False) (map fst cs)"
    using n by (intro filter_cong) (auto simp: p)
  then show ?case
    using Cons.IH [OF d] by (simp add: faltando_def p)
qed

lemma checks_Inr:
  assumes "checks f = Inr cs"
  obtains ram_ok cpu_ok disk_ok where
    "ram_check (ram_gb f) = Inr ram_ok" "cpu_check (cpu_cores f) = Inr cpu_ok"
    "disk_check (disk_total f) = Inr disk_ok"
    "cs = [(''RAM'', ram_ok), (''CPU'', cpu_ok), (''Disco'', disk_ok),
           (''TPM'', tpm_check (tpm f)), (''Firmware'', firmware_check (firmware f)),
           (''SecureBoot'', secure_boot_check (secure_boot f)),
           (''Arquitetura'', arch_check (arch f))]"
  using assms unfolding checks_def bind_err_def
  by (auto split: sum.splits)

text \<open>
  Claim C2. When the evaluation yields the checks, they are the seven predicates under
  the keys RAM, CPU, Disco, TPM, Firmware, SecureBoot, Arquitetura in this order; the
  overall verdict is their conjunction, and the list of what is missing holds exactly
  the keys whose check is false, in that order.
\<close>

theorem verdict_and_failing_list:
  assumes "checks f = Inr cs"
  shows "\<exists>ram_ok cpu_ok disk_ok.
           ram_check (ram_gb f) = Inr ram_ok \<and> cpu_check (cpu_cores f) = Inr cpu_ok
           \<and> disk_check (disk_total f) = Inr disk_ok
           \<and> cs = [(''RAM'', ram_ok), (''CPU'', cpu_ok), (''Disco'', disk_ok),
                   (''TPM'', tpm_check (tpm f)), (''Firmware'', firmware_check (firmware f)),
                   (''SecureBoot'', secure_boot_check (secure_boot f)),
                   (''Arquitetura'', arch_check (arch f))]
           \<and> fully_compatible cs =
               (ram_ok \<and> cpu_ok \<and> disk_ok \<and> tpm_check (tpm f) \<and> firmware_check (firmware f)
                \<and> secure_boot_check (secure_boot f) \<and> arch_check (arch f))
           \<and> faltando cs = filter (\<lambda>k. map_of cs k = Some False) categories"
proof -
  from assms obtain ram_ok cpu_ok disk_ok where
    r: "ram_check (ram_gb f) = Inr ram_ok" and c: "cpu_check (cpu_cores f) = Inr cpu_ok"
    and d: "disk_check (disk_total f) = Inr disk_ok"
    and cs: "cs = [(''RAM'', ram_ok), (''CPU'', cpu_ok), (''Disco'', disk_ok),
           (''TPM'', tpm_check (tpm f)), (''Firmware'', firmware_check (firmware f)),
           (''SecureBoot'', secure_boot_check (secure_boot f)),
           (''Arquitetura'', arch_check (arch f))]"
    by (rule checks_Inr)
  have keys: "map fst cs = categories"
    by (simp add: cs categories_def)
  have "distinct categories"
    by (simp add: categories_def)
  then have fl: "faltando cs = filter (\<lambda>k. map_of cs k = Some False) categories"
    using faltando_map_of [of cs] by (simp add: keys)
  have fc: "fully_compatible cs =
               (ram_ok \<and> cpu_ok \<and> disk_ok \<and> tpm_check (tpm f) \<and> firmware_check (firmware f)
                \<and> secure_boot_check (secure_boot f) \<and> arch_check (arch f))"
    by (simp add: cs fully_compatible_def)
  from r c d cs fc fl show ?thesis by blast
qed

lemma sample_checks:
  "checks sample_facts =
     Inr [(''RAM'', False), (''CPU'', True), (''Disco'', True), (''TPM'', False),
          (''Firmware'', True), (''SecureBoot'', True), (''Arquitetura'', True)]"
  by (simp add: checks_def bind_err_def sample_facts_def sample_tpm_def ram_check_def
      cpu_check_def disk_check_def tpm_check_def firmware_check_def secure_boot_check_def
      arch_check_def py_lower_true_iff)

theorem verdict_and_failing_list_witness:
  "checks sample_facts =
     Inr [(''RAM'', False), (''CPU'', True), (''Disco'', True), (''TPM'', False),
          (''Firmware'', True), (''SecureBoot'', True), (''Arquitetura'', True)]
   \<and> \<not> fully_compatible [(''RAM'', False), (''CPU'', True), (''Disco'', True), (''TPM'', False),
          (''Firmware'', True), (''SecureBoot'', True), (''Arquitetura'', True)]
   \<and> faltando [(''RAM'', False), (''CPU'', True), (''Disco'', True), (''TPM'', False),
          (''Firmware'', True), (''SecureBoot'', True), (''Arquitetura'', True)]
       = [''RAM'', ''TPM'']"
  using verdict_and_failing_list [OF sample_checks] sample_checks
  by (auto simp: categories_def)


subsection \<open>Memory\<close>

lemma int_not_le_rat: "\<not> a \<le> b \<longleftrightarrow> (of_int b :: rat) + 1 \<le> of_int a"
proof -
  have "\<not> a \<le> b \<longleftrightarrow> b + 1 \<le> a" by linarith
  also have "\<dots> \<longleftrightarrow> (of_int (b + 1) :: rat) \<le> of_int a" by (simp only: of_int_le_iff)
  finally show ?thesis by simp
qed

lemma round_half_even_ge:
  assumes "even n"
  shows "n \<le> round_half_even y \<longleftrightarrow> of_int n - 1 / 2 \<le> y"
proof -
  define f where "f = \<lfloor>y\<rfloor>"
  have lo: "of_int f \<le> y" and hi: "y < of_int f + 1"
    unfolding f_def by linarith+
  consider (below) "y - of_int f < 1 / 2" | (above) "1 / 2 < y - of_int f"
    | (tie) "y - of_int f = 1 / 2"
    by linarith
  then show ?thesis
  proof cases
    case below
    then have r: "round_half_even y = f"
      by (simp add: round_half_even_def f_def)
    show ?thesis unfolding r
    proof
      assume "n \<le> f"
      then have "(of_int n :: rat) \<le> of_int f" by simp
      with lo show "of_int n - 1 / 2 \<le> y" by linarith
    next
      assume a: "of_int n - 1 / 2 \<le> y"
      show "n \<le> f"
      proof (rule ccontr)
        assume "\<not> n \<le> f"
        then have "(of_int f :: rat) + 1 \<le> of_int n" by (simp only: int_not_le_rat)
        with a below show False by linarith
      qed
    qed
  next
    case above
    then have r: "round_half_even y = f + 1"
      by (simp add: round_half_even_def f_def)
    show ?thesis unfolding r
    proof
      assume "n \<le> f + 1"
      then have "(of_int n :: rat) \<le> of_int (f + 1)" by (simp only: of_int_le_iff)
      with above show "of_int n - 1 / 2 \<le> y" by simp
    next
      assume a: "of_int n - 1 / 2 \<le> y"
      show "n \<le> f + 1"
      proof (rule ccontr)
        assume "\<not> n \<le> f + 1"
        then have "(of_int (f + 1) :: rat) + 1 \<le> of_int n" by (simp only: int_not_le_rat)
        with a hi show False by simp
      qed
    qed
  next
    case tie
    then have y: "y = of_int f + 1 / 2" by linarith
    have r: "round_half_even y = (if even f then f else f + 1)"
      using tie by (simp add: round_half_even_def f_def)
    have "of_int n - 1 / 2 \<le> y \<longleftrightarrow> (of_int n :: rat) \<le> of_int (f + 1)"
      unfolding y by simp linarith
    also have "\<dots> \<longleftrightarrow> n \<le> f + 1" by (simp only: of_int_le_iff)
    finally have e: "of_int n - 1 / 2 \<le> y \<longleftrightarrow> n \<le> f + 1" .
    show ?thesis
    proof (cases "even f")
      case True
      with assms have "n \<noteq> f + 1" by auto
      then show ?thesis unfolding e r using True by auto
    next
      case False
      then show ?thesis unfolding e r by simp
    qed
  qed
qed

lemma py_round2_ge:
  assumes "even n"
  shows "of_int n \<le> py_round2 x \<longleftrightarrow> of_int (100 * n) - 1 / 2 \<le> x * 100"
proof -
  have "of_int n \<le> py_round2 x \<longleftrightarrow> (of_int (100 * n) :: rat) \<le> of_int (round_half_even (x * 100))"
    unfolding py_round2_def by (simp add: le_divide_eq mult.commute)
  also have "\<dots> \<longleftrightarrow> 100 * n \<le> round_half_even (x * 100)" by (simp only: of_int_le_iff)
  also have "\<dots> \<longleftrightarrow> of_int (100 * n) - 1 / 2 \<le> x * 100"
    using assms by (intro round_half_even_ge) simp
  finally show ?thesis .
qed

lemma gb_ge_4: "of_int 4 \<le> py_round2 (of_int b / 1024 ^ 3) \<longleftrightarrow> 799 * 1024 ^ 3 \<le> 200 * b"
proof -
  have "of_int 4 \<le> py_round2 (of_int b / 1024 ^ 3) \<longleftrightarrow> (of_int (100 * 4) :: rat) - 1 / 2 \<le> of_int b / 1024 ^ 3 * 100"
    by (rule py_round2_ge) simp
  also have "\<dots> \<longleftrightarrow> (of_int (799 * 1024 ^ 3) :: rat) \<le> of_int (200 * b)"
    by (simp add: field_simps)
  also have "\<dots> \<longleftrightarrow> 799 * 1024 ^ 3 \<le> 200 * b" by (simp only: of_int_le_iff)
  finally show ?thesis .
qed

lemma gb_ge_64: "of_int 64 \<le> py_round2 (of_int b / 1024 ^ 3) \<longleftrightarrow> 12799 * 1024 ^ 3 \<le> 200 * b"
proof -
  have "of_int 64 \<le> py_round2 (of_int b / 1024 ^ 3) \<longleftrightarrow> (of_int (100 * 64) :: rat) - 1 / 2 \<le> of_int b / 1024 ^ 3 * 100"
    by (rule py_round2_ge) simp
  also have "\<dots> \<longleftrightarrow> (of_int (12799 * 1024 ^ 3) :: rat) \<le> of_int (200 * b)"
    by (simp add: field_simps)
  also have "\<dots> \<longleftrightarrow> 12799 * 1024 ^ 3 \<le> 200 * b" by (simp only: of_int_le_iff)
  finally show ?thesis .
qed

lemma no_overflow_small: "\<bar>b\<bar> < 2 ^ 1000 \<Longrightarrow> \<not> float_overflows (of_int b / 1024 ^ 3)"
proof -
  assume a: "\<bar>b\<bar> < 2 ^ 1000"
  have "\<bar>(of_int b :: rat) / 1024 ^ 3\<bar> = of_int \<bar>b\<bar> / 1024 ^ 3" by simp
  also have "\<dots> \<le> of_int \<bar>b\<bar>" by (simp add: divide_le_eq)
  also have "\<dots> < of_int (2 ^ 1000)" using a by (simp only: of_int_less_iff)
  also have "\<dots> < (2 ^ 1024 - 2 ^ 970 :: rat)" by simp
  finally show ?thesis by (simp add: float_overflows_def)
qed

lemma ram_of_bytes:
  "ram_check (get_ram_gb (PInt b)) =
     (if float_overflows (of_int b / 1024 ^ 3) then Inl TypeError
      else Inr (799 * 1024 ^ 3 \<le> 200 * b))"
  using gb_ge_4 [of b] by (simp add: ram_check_def get_ram_gb_def)

lemma ram_of_small_bytes:
  "\<bar>b\<bar> < 2 ^ 1000 \<Longrightarrow> ram_check (get_ram_gb (PInt b)) = Inr (799 * 1024 ^ 3 \<le> 200 * b)"
proof -
  assume "\<bar>b\<bar> < 2 ^ 1000"
  then have "\<not> float_overflows (of_int b / 1024 ^ 3)"
    by (rule no_overflow_small)
  then show ?thesis
    unfolding ram_of_bytes by (simp only: if_False)
qed

text \<open>
  Claim C3, as stated, fails: with one byte less than 4 GiB the quotient
  3.9999999990686774 is rounded to 4.0, and the check passes.
\<close>

theorem ram_one_byte_less_passes:
  "ram_check (get_ram_gb (PInt (4 * 1024 ^ 3 - 1))) = Inr True"
  using ram_of_small_bytes [of "4 * 1024 ^ 3 - 1"] by simp

text \<open>
  Claim C3, amended. The check compares the gigabytes rounded to two places: an
  integer number of bytes passes exactly from 3.995 GiB on, that is, when
  \<open>799 * 1024^3 \<le> 200 * b\<close>. So 4 GiB passes, one byte less passes (it is reported
  as 4.0), 4289598587 bytes is the least that passes and 4289598586 the most that fails.
\<close>

theorem ram_threshold_rounded:
  "ram_check (get_ram_gb (PInt b)) =
     (if float_overflows (of_int b / 1024 ^ 3) then Inl TypeError
      else Inr (799 * 1024 ^ 3 \<le> 200 * b))
   \<and> ram_check (get_ram_gb (PInt (4 * 1024 ^ 3))) = Inr True
   \<and> get_ram_gb (PInt (4 * 1024 ^ 3 - 1)) = PFloat 4
   \<and> ram_check (get_ram_gb (PInt 4289598587)) = Inr True
   \<and> ram_check (get_ram_gb (PInt 4289598586)) = Inr False"
proof (intro conjI)
  show "ram_check (get_ram_gb (PInt b)) =
     (if float_overflows (of_int b / 1024 ^ 3) then Inl TypeError
      else Inr (799 * 1024 ^ 3 \<le> 200 * b))"
    by (rule ram_of_bytes)
  show "ram_check (get_ram_gb (PInt (4 * 1024 ^ 3))) = Inr True"
    using ram_of_small_bytes [of "4 * 1024 ^ 3"] by simp
  have r: "py_round2 (of_int (4 * 1024 ^ 3 - 1) / 1024 ^ 3) = 4"
    by code_simp
  have "get_ram_gb (PInt (4 * 1024 ^ 3 - 1)) = PFloat (py_round2 (of_int (4 * 1024 ^ 3 - 1) / 1024 ^ 3))"
    unfolding get_ram_gb_def bytes_to_gb.simps
    using no_overflow_small [of "4 * 1024 ^ 3 - 1"] by simp
  then show "get_ram_gb (PInt (4 * 1024 ^ 3 - 1)) = PFloat 4"
    unfolding r .
  show "ram_check (get_ram_gb (PInt 4289598587)) = Inr True"
    using ram_of_small_bytes [of 4289598587] by simp
  show "ram_check (get_ram_gb (PInt 4289598586)) = Inr False"
    using ram_of_small_bytes [of 4289598586] by simp
qed

subsection \<open>Disk\<close>

lemma disk_check_value: "disk_check v = Inr (is_int_or_float v \<and> py_ge v 64 = Inr True)"
  by (cases v) (simp_all add: disk_check_def)

lemma disk_of_bytes:
  "disk_check (fst (get_disk_info (Some (PInt b, usage_free)))) =
     Inr (\<not> float_overflows (of_int b / 1024 ^ 3) \<and> 12799 * 1024 ^ 3 \<le> 200 * b)"
  using gb_ge_64 [of b] by (simp add: disk_check_def get_disk_info_def)

lemma disk_of_small_bytes:
  assumes "\<bar>b\<bar> < 2 ^ 1000"
  shows "disk_check (fst (get_disk_info (Some (PInt b, usage_free)))) =
           Inr (12799 * 1024 ^ 3 \<le> 200 * b)"
proof -
  from assms have "\<not> float_overflows (of_int b / 1024 ^ 3)"
    by (rule no_overflow_small)
  then show ?thesis
    unfolding disk_of_bytes by (simp only: simp_thms)
qed

text \<open>
  Claim C5, as stated, fails: a disk of one byte less than 64 GiB has a gigabyte
  value below 64, which is rounded to 64.0, and the check passes.
\<close>

theorem disk_below_64_passes:
  "(of_int (64 * 1024 ^ 3 - 1) :: rat) / 1024 ^ 3 < 64
   \<and> disk_check (fst (get_disk_info (Some (PInt (64 * 1024 ^ 3 - 1), PInt 0)))) = Inr True"
proof
  show "(of_int (64 * 1024 ^ 3 - 1) :: rat) / 1024 ^ 3 < 64"
    by simp
  show "disk_check (fst (get_disk_info (Some (PInt (64 * 1024 ^ 3 - 1), PInt 0)))) = Inr True"
    using disk_of_small_bytes [of "64 * 1024 ^ 3 - 1" "PInt 0"] by simp
qed

text \<open>
  Claim C5, amended. The disk check never raises: it is true exactly when
  \<open>disk_total\<close> is a number and that number, the gigabytes rounded to two places
  that \<open>bytes_to_gb\<close> returned, is at least 64. For a total of \<open>b\<close> bytes that is
  from 63.995 GiB on (\<open>12799 * 1024^3 \<le> 200 * b\<close>): 64 GiB and one byte less pass,
  68714108027 bytes is the least that passes and 68714108026 the most that fails. On
  the sentinel \<open>Desconhecido\<close>, which \<open>get_disk_info\<close> returns when the disk cannot
  be read, and on \<open>None\<close> the check is false.
\<close>

theorem disk_check_fail_closed:
  "disk_check v = Inr (is_int_or_float v \<and> py_ge v 64 = Inr True)
   \<and> disk_check (PStr desconhecido) = Inr False
   \<and> disk_check PNone = Inr False
   \<and> disk_check (PInt i) = Inr (64 \<le> i)
   \<and> disk_check (PFloat q) = Inr (64 \<le> q)
   \<and> disk_check (fst (get_disk_info None)) = Inr False
   \<and> disk_check (fst (get_disk_info (Some (PInt b, usage_free)))) =
        Inr (\<not> float_overflows (of_int b / 1024 ^ 3) \<and> 12799 * 1024 ^ 3 \<le> 200 * b)
   \<and> fst (get_disk_info (Some (PInt (64 * 1024 ^ 3 - 1), usage_free))) = PFloat 64
   \<and> disk_check (fst (get_disk_info (Some (PInt (64 * 1024 ^ 3), usage_free)))) = Inr True
   \<and> disk_check (fst (get_disk_info (Some (PInt 68714108027, usage_free)))) = Inr True
   \<and> disk_check (fst (get_disk_info (Some (PInt 68714108026, usage_free)))) = Inr False"
proof (intro conjI)
  show "disk_check v = Inr (is_int_or_float v \<and> py_ge v 64 = Inr True)"
    by (rule disk_check_value)
  show "disk_check (PStr desconhecido) = Inr False" "disk_check PNone = Inr False"
    "disk_check (PInt i) = Inr (64 \<le> i)" "disk_check (PFloat q) = Inr (64 \<le> q)"
    by (simp_all add: disk_check_def)
  show "disk_check (fst (get_disk_info None)) = Inr False"
    by (simp add: disk_check_def get_disk_info_def)
  show "disk_check (fst (get_disk_info (Some (PInt b, usage_free)))) =
        Inr (\<not> float_overflows (of_int b / 1024 ^ 3) \<and> 12799 * 1024 ^ 3 \<le> 200 * b)"
    by (rule disk_of_bytes)
  have r: "py_round2 (of_int (64 * 1024 ^ 3 - 1) / 1024 ^ 3) = 64"
    by code_simp
  have "fst (get_disk_info (Some (PInt (64 * 1024 ^ 3 - 1), usage_free)))
          = PFloat (py_round2 (of_int (64 * 1024 ^ 3 - 1) / 1024 ^ 3))"
    unfolding get_disk_info_def bytes_to_gb.simps
    using no_overflow_small [of "64 * 1024 ^ 3 - 1"] by simp
  then show "fst (get_disk_info (Some (PInt (64 * 1024 ^ 3 - 1), usage_free))) = PFloat 64"
    unfolding r .
  show "disk_check (fst (get_disk_info (Some (PInt (64 * 1024 ^ 3), usage_free)))) = Inr True"
    using disk_of_small_bytes [of "64 * 1024 ^ 3" usage_free] by simp
  show "disk_check (fst (get_disk_info (Some (PInt 68714108027, usage_free)))) = Inr True"
    using disk_of_small_bytes [of 68714108027 usage_free] by simp
  show "disk_check (fst (get_disk_info (Some (PInt 68714108026, usage_free)))) = Inr False"
    using disk_of_small_bytes [of 68714108026 usage_free] by simp
qed

subsection \<open>Unknown values\<close>

text \<open>
  The checks are evaluated exactly when \<open>ram_gb\<close> and \<open>cpu_cores\<close> are numbers.
\<close>

lemma py_ge_returns: "(\<exists>b. py_ge v n = Inr b) \<longleftrightarrow> is_int_or_float v"
  by (cases v) simp_all

lemma checks_returns:
  "(\<exists>cs. checks f = Inr cs) \<longleftrightarrow> is_int_or_float (ram_gb f) \<and> is_int_or_float (cpu_cores f)"
proof
  assume "\<exists>cs. checks f = Inr cs"
  then obtain cs where "checks f = Inr cs" ..
  then obtain ram_ok cpu_ok where "ram_check (ram_gb f) = Inr ram_ok"
    "cpu_check (cpu_cores f) = Inr cpu_ok"
    by (rule checks_Inr)
  then show "is_int_or_float (ram_gb f) \<and> is_int_or_float (cpu_cores f)"
    unfolding ram_check_def cpu_check_def using py_ge_returns by blast
next
  assume "is_int_or_float (ram_gb f) \<and> is_int_or_float (cpu_cores f)"
  then obtain ram_ok cpu_ok where "py_ge (ram_gb f) 4 = Inr ram_ok" "py_ge (cpu_cores f) 2 = Inr cpu_ok"
    using py_ge_returns by blast
  then show "\<exists>cs. checks f = Inr cs"
    by (simp add: checks_def bind_err_def ram_check_def cpu_check_def disk_check_value)
qed

lemma py_ge_error: "py_ge v n = Inl e \<Longrightarrow> e = TypeError"
  by (cases v) simp_all

lemma checks_None:
  assumes "ram_gb f = PNone \<or> cpu_cores f = PNone"
  shows "checks f = Inl TypeError"
proof (cases "ram_check (ram_gb f)")
  case (Inl e)
  then have "e = TypeError" unfolding ram_check_def by (rule py_ge_error)
  with Inl show ?thesis by (simp add: checks_def bind_err_def)
next
  case (Inr ram_ok)
  with assms have "cpu_cores f = PNone" by (auto simp: ram_check_def)
  with Inr show ?thesis by (simp add: checks_def bind_err_def cpu_check_def)
qed

lemma report_None:
  "ram_gb f = PNone \<or> cpu_cores f = PNone \<Longrightarrow> report_of str_of f debug = Inl TypeError"
  by (simp add: report_of_def bind_err_def checks_None)

lemma gather_cpu_None:
  "wmi_processors env = None \<Longrightarrow> psutil_cpu_count env = PNone \<Longrightarrow> cpu_cores (gather env) = PNone"
  by (simp add: gather_def get_cpu_info_def Let_def)

lemma gather_ram_None:
  "virtual_memory_total env = PNone \<Longrightarrow> ram_gb (gather env) = PNone"
  by (simp add: gather_def get_ram_gb_def Let_def)

lemma build_report_None:
  "virtual_memory_total env = PNone \<or> (wmi_processors env = None \<and> psutil_cpu_count env = PNone)
     \<Longrightarrow> build_report env debug = Inl TypeError"
  unfolding build_report_def
  by (rule report_None) (auto simp: gather_cpu_None gather_ram_None)

text \<open>
  Claim C1 does not hold of the code. On a host where the number of cores is unknown,
  \<open>cpu_cores\<close> is \<open>None\<close> and \<open>build_report\<close> ends with \<open>TypeError\<close> at
  \<open>cpu_cores >= 2\<close>; the same happens at \<open>ram_gb >= 4\<close> when the memory size is
  \<open>None\<close>. The disk check of the same host, which tests the type first, is false.
\<close>

theorem unknown_cpu_cores_raise:
  "cpu_cores (gather sample_host) = PNone
   \<and> build_report sample_host debug = Inl TypeError
   \<and> build_report (sample_host\<lparr>virtual_memory_total := PNone, psutil_cpu_count := PInt 4\<rparr>) debug
       = Inl TypeError
   \<and> disk_check (disk_total (gather sample_host)) = Inr False"
proof (intro conjI)
  show "cpu_cores (gather sample_host) = PNone"
    by (rule gather_cpu_None) (simp_all add: sample_host_def)
  show "build_report sample_host debug = Inl TypeError"
    by (rule build_report_None) (simp add: sample_host_def)
  show "build_report (sample_host\<lparr>virtual_memory_total := PNone, psutil_cpu_count := PInt 4\<rparr>) debug
       = Inl TypeError"
    by (rule build_report_None) simp
  show "disk_check (disk_total (gather sample_host)) = Inr False"
    by (simp add: gather_def Let_def get_disk_info_def sample_host_def disk_check_def)
qed


subsection \<open>TPM\<close>

lemma ativado_in:
  "py_in ''Ativado'' ''Ativado''" "\<not> py_in ''Ativado'' ''Desativado''"
  "\<not> py_in ''Ativado'' desconhecido"
  by (simp_all add: desconhecido_def)

lemma tpm_from_json_fields:
  assumes "tpm_from_json out (PDict kv) = Some t"
  shows "enabled t = (if truthy (dict_get kv ''TpmEnabled'' (PBool False))
                         \<or> truthy (dict_get kv ''TpmReady'' (PBool False))
                      then ''Ativado'' else ''Desativado'')"
  using assms unfolding tpm_from_json_def Let_def
  by (auto split: option.splits)

lemma strip_nul_plain: "strip_nul ''2.0'' = ''2.0''"
  by (simp add: strip_nul_def strip_chars_def)

lemma sample_tpm_parse:
  "tpm_from_json ''{}'' (PDict sample_tpm_json) =
     Some \<lparr> status = ''Presente'', enabled = ''Ativado'', version = ''2.0'',
            manufacturer = desconhecido, is_tpm20 = True, raw = PDict sample_tpm_json \<rparr>"
  by (simp add: tpm_from_json_def sample_tpm_json_def dict_get_def text_field_def Let_def
      strip_nul_def strip_chars_def or_else_def)

lemma tpm_from_json_dict: "tpm_from_json out j = Some t \<Longrightarrow> \<exists>kv. j = PDict kv"
  by (cases j) (simp_all add: tpm_from_json_def)

lemma tpm_from_json_is20:
  assumes "tpm_from_json out (PDict kv) = Some t"
  shows "is_tpm20 t \<longleftrightarrow>
           text_field kv ''ManufacturerVersionFull20'' \<noteq> Some [] \<or> py_in ''Full20'' out
           \<or> (\<exists>spec_ver. text_field kv ''SpecVersion'' = Some spec_ver \<and> py_in ''2.0'' spec_ver)"
  using assms unfolding tpm_from_json_def Let_def
  by (auto split: option.splits)

lemma get_tpm_info_parsed:
  assumes "safe_run run tpm_cmd default_timeout = (True, out)" and "out \<noteq> []"
    and "loads out = Some j" and "tpm_from_json out j = Some t"
  shows "get_tpm_info run loads = t"
  using assms by (simp add: get_tpm_info_def)

lemma get_tpm_info_cases:
  "(\<exists>out j t. safe_run run tpm_cmd default_timeout = (True, out) \<and> out \<noteq> []
       \<and> loads out = Some j \<and> tpm_from_json out j = Some t \<and> get_tpm_info run loads = t)
   \<or> get_tpm_info run loads = tpm_unknown (snd (safe_run run tpm_cmd default_timeout))"
  by (cases "safe_run run tpm_cmd default_timeout")
     (auto simp: get_tpm_info_def split: option.splits)

lemma tpm_unknown_fails: "\<not> tpm_check (tpm_unknown out)"
  by (simp add: tpm_check_def tpm_unknown_def)

lemma tpm_check_parsed:
  assumes "tpm_from_json out (PDict kv) = Some t"
  shows "tpm_check t \<longleftrightarrow>
           is_tpm20 t \<and> (truthy (dict_get kv ''TpmEnabled'' (PBool False))
                         \<or> truthy (dict_get kv ''TpmReady'' (PBool False)))"
  unfolding tpm_check_def tpm_from_json_fields [OF assms]
  using ativado_in by simp

lemma get_tpm_info_check:
  "tpm_check (get_tpm_info run loads) \<longleftrightarrow>
     (\<exists>out kv t. safe_run run tpm_cmd default_timeout = (True, out) \<and> out \<noteq> []
        \<and> loads out = Some (PDict kv) \<and> tpm_from_json out (PDict kv) = Some t
        \<and> is_tpm20 t
        \<and> (truthy (dict_get kv ''TpmEnabled'' (PBool False))
             \<or> truthy (dict_get kv ''TpmReady'' (PBool False))))"
  (is "?l \<longleftrightarrow> ?r")
proof
  assume l: ?l
  from get_tpm_info_cases [of run loads] l tpm_unknown_fails
  obtain out j t where p: "safe_run run tpm_cmd default_timeout = (True, out)" "out \<noteq> []"
    "loads out = Some j" "tpm_from_json out j = Some t" "get_tpm_info run loads = t"
    by metis
  from p(4) obtain kv where j: "j = PDict kv"
    using tpm_from_json_dict by blast
  from l p(5) have "tpm_check t" by simp
  with tpm_check_parsed [of out kv t] p(4) j
  have "is_tpm20 t \<and> (truthy (dict_get kv ''TpmEnabled'' (PBool False))
                         \<or> truthy (dict_get kv ''TpmReady'' (PBool False)))"
    by simp
  with p j show ?r by blast
next
  assume ?r
  then obtain out kv t where p: "safe_run run tpm_cmd default_timeout = (True, out)" "out \<noteq> []"
    "loads out = Some (PDict kv)" "tpm_from_json out (PDict kv) = Some t"
    and c: "is_tpm20 t \<and> (truthy (dict_get kv ''TpmEnabled'' (PBool False))
                         \<or> truthy (dict_get kv ''TpmReady'' (PBool False)))"
    by blast
  have "get_tpm_info run loads = t"
    using p by (rule get_tpm_info_parsed)
  with c tpm_check_parsed [OF p(4)] show ?l by simp
qed

lemma sample_safe_run:
  "safe_run (\<lambda>cmd timeout. Completed 0 ''{}'' []) tpm_cmd default_timeout = (True, ''{}'')"
  by (simp add: safe_run_def py_strip_def strip_chars_def is_space_def)

lemma sample_probe:
  "get_tpm_info (\<lambda>cmd timeout. Completed 0 ''{}'' []) (\<lambda>s. Some (PDict sample_tpm_json)) =
     \<lparr> status = ''Presente'', enabled = ''Ativado'', version = ''2.0'',
       manufacturer = desconhecido, is_tpm20 = True, raw = PDict sample_tpm_json \<rparr>"
  by (rule get_tpm_info_parsed [OF sample_safe_run _ _ sample_tpm_parse]) simp_all

text \<open>
  Claim C4. For a payload that the probe parses, the TPM check passes exactly when
  the TPM is taken for a 2.0 (the manufacturer version is not empty, \<open>Full20\<close>
  occurs in the output or \<open>2.0\<close> occurs in the specification version) and
  \<open>TpmEnabled\<close> or \<open>TpmReady\<close> is true. The probe returns the parsed record when
  the command succeeds with an output that is not empty and parses to it, so the check
  on what \<open>get_tpm_info\<close> returns passes exactly for such a payload. A 2.0 that is
  ready and not enabled passes, also through the probe; the sentinel of the probe
  fails, also if it were taken for a 2.0.
\<close>

theorem tpm_check_enabled_or_ready:
  assumes "tpm_from_json out (PDict kv) = Some t"
  shows "(tpm_check t \<longleftrightarrow>
            is_tpm20 t \<and> (truthy (dict_get kv ''TpmEnabled'' (PBool False))
                          \<or> truthy (dict_get kv ''TpmReady'' (PBool False))))
         \<and> (is_tpm20 t \<longleftrightarrow>
              text_field kv ''ManufacturerVersionFull20'' \<noteq> Some [] \<or> py_in ''Full20'' out
              \<or> (\<exists>spec_ver. text_field kv ''SpecVersion'' = Some spec_ver
                    \<and> py_in ''2.0'' spec_ver))
         \<and> (safe_run run tpm_cmd default_timeout = (True, out) \<and> out \<noteq> []
              \<and> loads out = Some (PDict kv) \<longrightarrow> get_tpm_info run loads = t)
         \<and> (tpm_check (get_tpm_info run' loads') \<longleftrightarrow>
              (\<exists>out kv t. safe_run run' tpm_cmd default_timeout = (True, out) \<and> out \<noteq> []
                 \<and> loads' out = Some (PDict kv) \<and> tpm_from_json out (PDict kv) = Some t
                 \<and> is_tpm20 t
                 \<and> (truthy (dict_get kv ''TpmEnabled'' (PBool False))
                      \<or> truthy (dict_get kv ''TpmReady'' (PBool False)))))
         \<and> (\<exists>t'. tpm_from_json ''{}''
                     (PDict [(''TpmPresent'', PBool True), (''TpmReady'', PBool True),
                             (''TpmEnabled'', PBool False), (''SpecVersion'', PStr ''2.0'')])
                   = Some t' \<and> is_tpm20 t' \<and> tpm_check t')
         \<and> tpm_check
              (get_tpm_info (\<lambda>cmd timeout. Completed 0 ''{}'' [])
                 (\<lambda>s. Some (PDict [(''TpmPresent'', PBool True), (''TpmReady'', PBool True),
                                    (''TpmEnabled'', PBool False),
                                    (''SpecVersion'', PStr ''2.0'')])))
         \<and> \<not> tpm_check (tpm_unknown out')
         \<and> \<not> tpm_check (tpm_unknown out'\<lparr>is_tpm20 := True\<rparr>)"
proof (intro conjI)
  show "tpm_check t \<longleftrightarrow>
            is_tpm20 t \<and> (truthy (dict_get kv ''TpmEnabled'' (PBool False))
                          \<or> truthy (dict_get kv ''TpmReady'' (PBool False)))"
    using assms by (rule tpm_check_parsed)
  show "is_tpm20 t \<longleftrightarrow>
              text_field kv ''ManufacturerVersionFull20'' \<noteq> Some [] \<or> py_in ''Full20'' out
              \<or> (\<exists>spec_ver. text_field kv ''SpecVersion'' = Some spec_ver
                    \<and> py_in ''2.0'' spec_ver)"
    using assms by (rule tpm_from_json_is20)
  show "safe_run run tpm_cmd default_timeout = (True, out) \<and> out \<noteq> []
              \<and> loads out = Some (PDict kv) \<longrightarrow> get_tpm_info run loads = t"
    using assms by (simp add: get_tpm_info_parsed)
  show "tpm_check (get_tpm_info run' loads') \<longleftrightarrow>
              (\<exists>out kv t. safe_run run' tpm_cmd default_timeout = (True, out) \<and> out \<noteq> []
                 \<and> loads' out = Some (PDict kv) \<and> tpm_from_json out (PDict kv) = Some t
                 \<and> is_tpm20 t
                 \<and> (truthy (dict_get kv ''TpmEnabled'' (PBool False))
                      \<or> truthy (dict_get kv ''TpmReady'' (PBool False))))"
    by (rule get_tpm_info_check)
  show "\<exists>t'. tpm_from_json ''{}''
                     (PDict [(''TpmPresent'', PBool True), (''TpmReady'', PBool True),
                             (''TpmEnabled'', PBool False), (''SpecVersion'', PStr ''2.0'')])
                   = Some t' \<and> is_tpm20 t' \<and> tpm_check t'"
    using sample_tpm_parse by (simp add: sample_tpm_json_def tpm_check_def)
  show "tpm_check
              (get_tpm_info (\<lambda>cmd timeout. Completed 0 ''{}'' [])
                 (\<lambda>s. Some (PDict [(''TpmPresent'', PBool True), (''TpmReady'', PBool True),
                                    (''TpmEnabled'', PBool False),
                                    (''SpecVersion'', PStr ''2.0'')])))"
    using sample_probe by (simp add: sample_tpm_json_def tpm_check_def)
  show "\<not> tpm_check (tpm_unknown out')"
    by (rule tpm_unknown_fails)
  show "\<not> tpm_check (tpm_unknown out'\<lparr>is_tpm20 := True\<rparr>)"
    using ativado_in(3) by (simp add: tpm_check_def tpm_unknown_def)
qed

theorem tpm_check_enabled_or_ready_witness:
  "tpm_from_json ''{}'' (PDict sample_tpm_json) =
     Some \<lparr> status = ''Presente'', enabled = ''Ativado'', version = ''2.0'',
            manufacturer = desconhecido, is_tpm20 = True, raw = PDict sample_tpm_json \<rparr>
   \<and> safe_run (\<lambda>cmd timeout. Completed 0 ''{}'' []) tpm_cmd default_timeout = (True, ''{}'')
   \<and> tpm_check \<lparr> status = ''Presente'', enabled = ''Ativado'', version = ''2.0'',
            manufacturer = desconhecido, is_tpm20 = True, raw = PDict sample_tpm_json \<rparr>
   \<and> get_tpm_info (\<lambda>cmd timeout. Completed 0 ''{}'' []) (\<lambda>s. Some (PDict sample_tpm_json)) =
       \<lparr> status = ''Presente'', enabled = ''Ativado'', version = ''2.0'',
         manufacturer = desconhecido, is_tpm20 = True, raw = PDict sample_tpm_json \<rparr>"
  using tpm_check_enabled_or_ready [OF sample_tpm_parse,
      of "\<lambda>cmd timeout. Completed 0 ''{}'' []" "\<lambda>s. Some (PDict sample_tpm_json)"]
    sample_tpm_parse sample_safe_run
  by (simp add: sample_tpm_json_def dict_get_def)

subsection \<open>Failing commands\<close>

lemma safe_run_failed: "run_failed (run cmd t) \<Longrightarrow> \<not> fst (safe_run run cmd t)"
  by (auto simp: run_failed_def safe_run_def Let_def split: run_outcome.splits)

lemma safe_run_fixed: "safe_run (\<lambda>c t. run c d) cmd d = safe_run run cmd d"
  by (simp add: safe_run_def)

lemma tpm_failed:
  "run_failed (run tpm_cmd default_timeout) \<Longrightarrow>
     get_tpm_info run loads = tpm_unknown (snd (safe_run run tpm_cmd default_timeout))"
  using safe_run_failed [of run tpm_cmd default_timeout]
  by (cases "safe_run run tpm_cmd default_timeout") (simp add: get_tpm_info_def)

lemma secure_boot_failed:
  "run_failed (run secure_boot_cmd default_timeout) \<Longrightarrow> get_secure_boot_status run = indisponivel"
  using safe_run_failed [of run secure_boot_cmd default_timeout]
  by (cases "safe_run run secure_boot_cmd default_timeout") (simp add: get_secure_boot_status_def)

lemma not_ok_says:
  "\<not> fst r \<Longrightarrow> \<not> says_uefi r" "\<not> fst r \<Longrightarrow> \<not> says_bios r"
  by (cases r; simp add: says_uefi_def says_bios_def)+

lemma firmware_failed:
  "run_failed (run cim_cmd default_timeout) \<Longrightarrow> run_failed (run wmi_cmd default_timeout) \<Longrightarrow>
     get_firmware_type run ex = (if list_ex ex efi_paths then ''UEFI'' else desconhecido)"
  using safe_run_failed [of run cim_cmd default_timeout] safe_run_failed [of run wmi_cmd default_timeout]
  by (simp add: get_firmware_type_def Let_def not_ok_says)

text \<open>
  Claim C8, as stated, fails for the firmware probe: when both of its commands time
  out and an EFI folder exists, it returns \<open>UEFI\<close>, not its sentinel.
\<close>

theorem firmware_probe_falls_back:
  "run_failed (subprocess_run sample_host cim_cmd default_timeout)
   \<and> run_failed (subprocess_run sample_host wmi_cmd default_timeout)
   \<and> get_firmware_type (subprocess_run sample_host) (path_exists sample_host) = ''UEFI''
   \<and> ''UEFI'' \<noteq> desconhecido"
proof -
  have f: "run_failed (subprocess_run sample_host cim_cmd default_timeout)"
    "run_failed (subprocess_run sample_host wmi_cmd default_timeout)"
    by (simp_all add: sample_host_def run_failed_def)
  have "list_ex (path_exists sample_host) efi_paths"
    by (simp add: sample_host_def efi_paths_def)
  then have "get_firmware_type (subprocess_run sample_host) (path_exists sample_host) = ''UEFI''"
    using firmware_failed [of "subprocess_run sample_host" "path_exists sample_host", OF f] by simp
  with f show ?thesis by (simp add: desconhecido_def)
qed

lemma says_uefi_outcome:
  "says_uefi (safe_run run cmd t) \<longleftrightarrow>
     (\<exists>stdout stderr. run cmd t = Completed 0 stdout stderr
        \<and> py_strip (py_strip stdout) \<in> set [''2'', ''UEFI'', ''uefi''])"
  by (cases "run cmd t") (auto simp: says_uefi_def safe_run_def Let_def)

lemma says_bios_outcome:
  "says_bios (safe_run run cmd t) \<longleftrightarrow>
     (\<exists>stdout stderr. run cmd t = Completed 0 stdout stderr
        \<and> py_strip (py_strip stdout) \<in> set [''1'', ''BIOS'', ''bios''])"
  by (cases "run cmd t") (auto simp: says_bios_def safe_run_def Let_def)

lemma failed_says_nothing:
  "run_failed (run cmd t) \<Longrightarrow>
     \<not> says_uefi (safe_run run cmd t) \<and> \<not> says_bios (safe_run run cmd t)"
  using safe_run_failed [of run cmd t] by (simp add: not_ok_says)

lemma firmware_chain:
  "get_firmware_type run ex =
     (if says_uefi (safe_run run cim_cmd 8) then ''UEFI''
      else if says_bios (safe_run run cim_cmd 8) then ''Legacy/BIOS''
      else if says_uefi (safe_run run wmi_cmd 8) then ''UEFI''
      else if says_bios (safe_run run wmi_cmd 8) then ''Legacy/BIOS''
      else if list_ex ex efi_paths then ''UEFI''
      else desconhecido)"
  by (simp add: get_firmware_type_def Let_def default_timeout_def)

lemma secure_boot_chain:
  "get_secure_boot_status run =
     (if fst (safe_run run secure_boot_cmd 8)
         \<and> (py_lower (snd (safe_run run secure_boot_cmd 8)) = ''true''
              \<or> py_lower (snd (safe_run run secure_boot_cmd 8)) = ''false'')
      then py_title (snd (safe_run run secure_boot_cmd 8))
      else indisponivel)"
  by (cases "safe_run run secure_boot_cmd 8")
     (auto simp: get_secure_boot_status_def default_timeout_def)

lemma tpm_chain:
  "get_tpm_info run loads =
     (if fst (safe_run run tpm_cmd 8) \<and> snd (safe_run run tpm_cmd 8) \<noteq> []
      then (case loads (snd (safe_run run tpm_cmd 8)) of
              None \<Rightarrow> tpm_unknown (snd (safe_run run tpm_cmd 8))
            | Some j \<Rightarrow>
                (case tpm_from_json (snd (safe_run run tpm_cmd 8)) j of
                   None \<Rightarrow> tpm_unknown (snd (safe_run run tpm_cmd 8))
                 | Some t \<Rightarrow> t))
      else tpm_unknown (snd (safe_run run tpm_cmd 8)))"
  by (cases "safe_run run tpm_cmd 8")
     (auto simp: get_tpm_info_def default_timeout_def split: option.splits)

text \<open>
  Claim C8, amended. Every call that a probe makes is bounded by the fixed timeout of
  8 seconds: the probe is the same function of what \<open>subprocess.run\<close> does under
  that timeout, whatever it would do under another. No probe raises. When its command
  fails (an exception, the timeout among them, or an exit status other than zero),
  the TPM probe returns its sentinel, with the text of the failure as raw value, and
  the Secure Boot probe returns its sentinel. The firmware probe goes down its chain:
  the answer of the CIM query if it gives one (exit status zero and one of the known
  words), else the answer of the WMI query if it gives one, else \<open>UEFI\<close> if an EFI
  folder exists, and its sentinel only then; a command that fails gives no answer.
  The last two conjuncts on the probes say what the Secure Boot and the TPM probe
  return in every case.
\<close>

theorem probes_degrade_on_failure:
  "default_timeout = 8
   \<and> get_tpm_info run loads = get_tpm_info (\<lambda>cmd timeout. run cmd 8) loads
   \<and> get_secure_boot_status run = get_secure_boot_status (\<lambda>cmd timeout. run cmd 8)
   \<and> get_firmware_type run ex = get_firmware_type (\<lambda>cmd timeout. run cmd 8) ex
   \<and> (run_failed (run tpm_cmd 8) \<longrightarrow>
        get_tpm_info run loads = tpm_unknown (snd (safe_run run tpm_cmd 8)))
   \<and> (run_failed (run secure_boot_cmd 8) \<longrightarrow> get_secure_boot_status run = indisponivel)
   \<and> (run_failed (run cim_cmd 8) \<and> run_failed (run wmi_cmd 8) \<longrightarrow>
        get_firmware_type run ex = (if list_ex ex efi_paths then ''UEFI'' else desconhecido))
   \<and> (run_failed (run cim_cmd 8) \<longrightarrow>
        get_firmware_type run ex =
          (if says_uefi (safe_run run wmi_cmd 8) then ''UEFI''
           else if says_bios (safe_run run wmi_cmd 8) then ''Legacy/BIOS''
           else if list_ex ex efi_paths then ''UEFI''
           else desconhecido))
   \<and> get_firmware_type run ex =
        (if says_uefi (safe_run run cim_cmd 8) then ''UEFI''
         else if says_bios (safe_run run cim_cmd 8) then ''Legacy/BIOS''
         else if says_uefi (safe_run run wmi_cmd 8) then ''UEFI''
         else if says_bios (safe_run run wmi_cmd 8) then ''Legacy/BIOS''
         else if list_ex ex efi_paths then ''UEFI''
         else desconhecido)
   \<and> (says_uefi (safe_run run cmd 8) \<longleftrightarrow>
        (\<exists>stdout stderr. run cmd 8 = Completed 0 stdout stderr
           \<and> py_strip (py_strip stdout) \<in> set [''2'', ''UEFI'', ''uefi'']))
   \<and> (says_bios (safe_run run cmd 8) \<longleftrightarrow>
        (\<exists>stdout stderr. run cmd 8 = Completed 0 stdout stderr
           \<and> py_strip (py_strip stdout) \<in> set [''1'', ''BIOS'', ''bios'']))
   \<and> get_secure_boot_status run =
        (if fst (safe_run run secure_boot_cmd 8)
            \<and> (py_lower (snd (safe_run run secure_boot_cmd 8)) = ''true''
                 \<or> py_lower (snd (safe_run run secure_boot_cmd 8)) = ''false'')
         then py_title (snd (safe_run run secure_boot_cmd 8))
         else indisponivel)
   \<and> get_tpm_info run loads =
        (if fst (safe_run run tpm_cmd 8) \<and> snd (safe_run run tpm_cmd 8) \<noteq> []
         then (case loads (snd (safe_run run tpm_cmd 8)) of
                 None \<Rightarrow> tpm_unknown (snd (safe_run run tpm_cmd 8))
               | Some j \<Rightarrow>
                   (case tpm_from_json (snd (safe_run run tpm_cmd 8)) j of
                      None \<Rightarrow> tpm_unknown (snd (safe_run run tpm_cmd 8))
                    | Some t \<Rightarrow> t))
         else tpm_unknown (snd (safe_run run tpm_cmd 8)))
   \<and> (run_failed (run cmd 8) \<longrightarrow> \<not> fst (safe_run run cmd 8))"
proof -
  have d: "default_timeout = 8" by (simp add: default_timeout_def)
  have s: "\<And>cmd. safe_run (\<lambda>c t. run c 8) cmd default_timeout = safe_run run cmd default_timeout"
    unfolding d by (rule safe_run_fixed)
  have t: "get_tpm_info run loads = get_tpm_info (\<lambda>cmd timeout. run cmd 8) loads"
    by (simp only: get_tpm_info_def s)
  have b: "get_secure_boot_status run = get_secure_boot_status (\<lambda>cmd timeout. run cmd 8)"
    by (simp only: get_secure_boot_status_def s)
  have w: "get_firmware_type run ex = get_firmware_type (\<lambda>cmd timeout. run cmd 8) ex"
    by (simp only: get_firmware_type_def s)
  have f1: "run_failed (run tpm_cmd 8) \<longrightarrow>
        get_tpm_info run loads = tpm_unknown (snd (safe_run run tpm_cmd 8))"
    using tpm_failed [of run loads] by (simp add: d)
  have f2: "run_failed (run secure_boot_cmd 8) \<longrightarrow> get_secure_boot_status run = indisponivel"
    using secure_boot_failed [of run] by (simp add: d)
  have f3: "run_failed (run cim_cmd 8) \<and> run_failed (run wmi_cmd 8) \<longrightarrow>
        get_firmware_type run ex = (if list_ex ex efi_paths then ''UEFI'' else desconhecido)"
    using firmware_failed [of run ex] by (simp add: d)
  have f4: "run_failed (run cim_cmd 8) \<longrightarrow>
        get_firmware_type run ex =
          (if says_uefi (safe_run run wmi_cmd 8) then ''UEFI''
           else if says_bios (safe_run run wmi_cmd 8) then ''Legacy/BIOS''
           else if list_ex ex efi_paths then ''UEFI''
           else desconhecido)"
    using failed_says_nothing [of run cim_cmd 8] by (simp add: firmware_chain)
  have f5: "run_failed (run cmd 8) \<longrightarrow> \<not> fst (safe_run run cmd 8)"
    using safe_run_failed [of run cmd 8] by simp
  show ?thesis
    apply (intro conjI)
                apply (rule d)
               apply (rule t)
              apply (rule b)
             apply (rule w)
            apply (rule f1)
           apply (rule f2)
          apply (rule f3)
         apply (rule f4)
        apply (rule firmware_chain)
       apply (rule says_uefi_outcome)
      apply (rule says_bios_outcome)
     apply (rule secure_boot_chain)
    apply (rule tpm_chain)
    apply (rule f5)
    done
qed

lemma sample_wmi_says:
  "says_uefi (safe_run (\<lambda>cmd timeout. if cmd = wmi_cmd
                                          then Completed 0 (''2'' @ [CHR 0x0D, CHR 0x0A]) []
                                          else Completed 1 [] ''error'') wmi_cmd 8)"
  by (simp add: says_uefi_def safe_run_def py_strip_def strip_chars_def is_space_def)

theorem probes_degrade_on_failure_witness:
  "run_failed (Raised ''timed out'')
   \<and> get_tpm_info (\<lambda>cmd timeout. Raised ''timed out'') (\<lambda>s. None) = tpm_unknown ''timed out''
   \<and> get_secure_boot_status (\<lambda>cmd timeout. Raised ''timed out'') = indisponivel
   \<and> get_firmware_type (\<lambda>cmd timeout. Raised ''timed out'') (\<lambda>p. False) = desconhecido
   \<and> run_failed (Completed 1 [] ''error'')
   \<and> get_firmware_type (\<lambda>cmd timeout. if cmd = wmi_cmd
                                          then Completed 0 (''2'' @ [CHR 0x0D, CHR 0x0A]) []
                                          else Completed 1 [] ''error'') (\<lambda>p. False) = ''UEFI''"
proof -
  have c: "cim_cmd \<noteq> wmi_cmd"
    by (simp add: cim_cmd_def wmi_cmd_def)
  have a: "run_failed (Raised ''timed out'')" "run_failed (Completed 1 [] ''error'')"
    by (simp_all add: run_failed_def)
  from a(1) probes_degrade_on_failure
    [of "\<lambda>cmd timeout. Raised ''timed out''" "\<lambda>s. None" "\<lambda>p. False"]
  have 1: "get_tpm_info (\<lambda>cmd timeout. Raised ''timed out'') (\<lambda>s. None) = tpm_unknown ''timed out''"
    "get_secure_boot_status (\<lambda>cmd timeout. Raised ''timed out'') = indisponivel"
    "get_firmware_type (\<lambda>cmd timeout. Raised ''timed out'') (\<lambda>p. False) = desconhecido"
    by (simp_all add: safe_run_def efi_paths_def)
  from a(2) c sample_wmi_says probes_degrade_on_failure
    [of "\<lambda>cmd timeout. if cmd = wmi_cmd then Completed 0 (''2'' @ [CHR 0x0D, CHR 0x0A]) []
                         else Completed 1 [] ''error''" "\<lambda>s. None" "\<lambda>p. False"]
  have 2: "get_firmware_type (\<lambda>cmd timeout. if cmd = wmi_cmd
                                          then Completed 0 (''2'' @ [CHR 0x0D, CHR 0x0A]) []
                                          else Completed 1 [] ''error'') (\<lambda>p. False) = ''UEFI''"
    by simp
  from a 1 2 show ?thesis by simp
qed

subsection \<open>The line of the disk\<close>

lemma disk_lines_number:
  "is_int_or_float v \<Longrightarrow> \<exists>l. disk_lines str_of v = Inr [l] \<and> is_disk_line l"
  by (cases v) (simp_all add: disk_lines_def bind_err_def is_disk_line_def)






subsection \<open>The file\<close>

lemma plain_txt: "plain_name h \<Longrightarrow> plain_name (h @ ascii ''.txt'')"
  by (auto simp: plain_name_def ascii_def is_sep_def)

lemma splitdrive_append: "splitdrive p = (d, r) \<Longrightarrow> p = d @ r"
  by (auto simp: splitdrive_def split: if_splits)

lemma splitdrive_plain: "plain_name n \<Longrightarrow> splitdrive n = ([], n)"
  by (auto simp: splitdrive_def plain_name_def)

lemma isabs_splitdrive:
  assumes "path_isabs base"
  obtains d r where "splitdrive base = (d, r)" "r \<noteq> []" "is_sep (hd r)"
    "\<And>t. t \<noteq> [] \<Longrightarrow> hd t \<noteq> 58 \<Longrightarrow> splitdrive (base @ t) = (d, r @ t)"
    "\<And>t. t \<noteq> [] \<Longrightarrow> path_isabs (base @ t)"
proof (cases "2 \<le> length base \<and> base ! 1 = 58")
  case True
  then obtain a rest where b: "base = a # 58 # rest"
    by (cases base; cases "tl base") auto
  with assms obtain c rest' where r: "rest = c # rest'" "is_sep c"
    by (cases rest) (auto simp: path_isabs_def is_sep_def)
  show ?thesis
  proof
    show "splitdrive base = ([a, 58], c # rest')"
      by (simp add: splitdrive_def b r)
    show "c # rest' \<noteq> []" "is_sep (hd (c # rest'))"
      using r by simp_all
    show "splitdrive (base @ t) = ([a, 58], (c # rest') @ t)" for t
      by (simp add: splitdrive_def b r)
    show "path_isabs (base @ t)" for t
      using r by (simp add: path_isabs_def b)
  qed
next
  case False
  with assms obtain a b rest where b: "base = a # b # rest" "is_sep a" "is_sep b" "b \<noteq> 58"
    by (cases base; cases "tl base"; cases "tl (tl base)") (auto simp: path_isabs_def is_sep_def)
  show ?thesis
  proof
    show "splitdrive base = ([], base)"
      using b by (simp add: splitdrive_def)
    show "base \<noteq> []" "is_sep (hd base)"
      using b by simp_all
    show "splitdrive (base @ t) = ([], base @ t)" for t
      using b by (simp add: splitdrive_def)
    show "path_isabs (base @ t)" if "t \<noteq> []" for t
      using b that by (cases rest; cases t) (simp_all add: path_isabs_def)
  qed
qed

lemma last_splitdrive: "splitdrive p = (d, r) \<Longrightarrow> r \<noteq> [] \<Longrightarrow> last r = last p"
  by (drule splitdrive_append) simp

lemma join_plain:
  assumes "path_isabs base" and "plain_name n" and "n \<noteq> []"
  shows "path_join base n = base @ sep_after base @ n"
proof -
  from assms(1) obtain d r where s: "splitdrive base = (d, r)" "r \<noteq> []"
    by (rule isabs_splitdrive) blast
  have l: "last r = last base"
    using s by (rule last_splitdrive)
  have b: "base = d @ r"
    using s(1) by (rule splitdrive_append)
  have h: "\<not> is_sep (hd n)"
    using assms(2,3) by (cases n) (simp_all add: plain_name_def)
  have "path_join base n = d @ (if \<not> is_sep (last r) then r @ [92] else r) @ n"
    unfolding path_join_def s(1) splitdrive_plain [OF assms(2)]
    using h assms(3) s(2) by simp
  also have "\<dots> = (d @ r) @ (if is_sep (last r) then [] else [92]) @ n"
    by simp
  finally show ?thesis
    unfolding sep_after_def l b [symmetric] .
qed

lemma split_plain:
  assumes "path_isabs base" and "plain_name n" and "n \<noteq> []"
  shows "path_basename (base @ sep_after base @ n) = n"
    and "path_isabs (base @ sep_after base @ n)"
    and "\<not> is_sep (last base) \<Longrightarrow> path_dirname (base @ sep_after base @ n) = base"
proof -
  from assms(1) obtain d r where s: "splitdrive base = (d, r)" "r \<noteq> []"
    and e: "\<And>t. t \<noteq> [] \<Longrightarrow> hd t \<noteq> 58 \<Longrightarrow> splitdrive (base @ t) = (d, r @ t)"
    and a: "\<And>t. t \<noteq> [] \<Longrightarrow> path_isabs (base @ t)"
    by (rule isabs_splitdrive) blast
  have l: "last r = last base"
    using s by (rule last_splitdrive)
  have b: "base = d @ r"
    using s(1) by (rule splitdrive_append)
  have t: "sep_after base @ n \<noteq> []" "hd (sep_after base @ n) \<noteq> 58"
    using assms(2,3) by (cases n; simp add: sep_after_def plain_name_def)+
  have sd: "splitdrive (base @ sep_after base @ n) = (d, r @ sep_after base @ n)"
    using t by (rule e)
  have nosep: "\<forall>c \<in> set (rev n). \<not> is_sep c"
    using assms(2) by (simp add: plain_name_def)
  have ends: "r @ sep_after base \<noteq> []" "is_sep (hd (rev (r @ sep_after base)))"
    using s(2) l by (simp_all add: sep_after_def is_sep_def hd_rev)
  have tw: "takeWhile (\<lambda>c. \<not> is_sep c) (rev (r @ sep_after base @ n)) = rev n"
  proof -
    have "takeWhile (\<lambda>c. \<not> is_sep c) (rev n @ rev (r @ sep_after base))
            = rev n @ takeWhile (\<lambda>c. \<not> is_sep c) (rev (r @ sep_after base))"
      using nosep by (intro takeWhile_append2) blast
    moreover have "takeWhile (\<lambda>c. \<not> is_sep c) (rev (r @ sep_after base)) = []"
      using ends by (cases "rev (r @ sep_after base)") simp_all
    moreover have "rev (r @ sep_after base @ n) = rev n @ rev (r @ sep_after base)"
      by simp
    ultimately show ?thesis
      by (simp only: append_Nil2)
  qed
  show "path_basename (base @ sep_after base @ n) = n"
    by (simp add: path_basename_def path_split_def sd tw Let_def del: rev_append)
  show "path_isabs (base @ sep_after base @ n)"
    using t(1) by (rule a)
  show "path_dirname (base @ sep_after base @ n) = base" if ns: "\<not> is_sep (last base)"
  proof -
    have sa: "sep_after base = [92]"
      using ns by (simp add: sep_after_def)
    have dw: "dropWhile (\<lambda>c. \<not> is_sep c) (rev (r @ [92] @ n)) = 92 # rev r"
    proof -
      have "dropWhile (\<lambda>c. \<not> is_sep c) (rev n @ (92 # rev r))
              = dropWhile (\<lambda>c. \<not> is_sep c) (92 # rev r)"
        using nosep by (intro dropWhile_append2) blast
      moreover have "rev (r @ [92] @ n) = rev n @ (92 # rev r)"
        by simp
      ultimately show ?thesis
        by (simp only: dropWhile.simps is_sep_def) simp
    qed
    have sd': "splitdrive (base @ [92] @ n) = (d, r @ [92] @ n)"
      using sd unfolding sa .
    have s92: "is_sep 92"
      by (simp add: is_sep_def)
    have nl: "\<not> is_sep (last r)"
      using ns l by simp
    have dr: "dropWhile is_sep (rev r) = rev r"
      using s(2) nl by (cases "rev r") (auto simp: hd_rev [symmetric])
    have ex: "\<exists>x\<in>set r. \<not> is_sep x"
      using s(2) nl last_in_set by blast
    have "path_dirname (base @ [92] @ n) = d @ r"
      unfolding path_dirname_def path_split_def sd' prod.case Let_def dw
      using s(2) by (simp add: s92 dr ex)
    then show ?thesis
      unfolding sa using b by simp
  qed
qed

lemma plain_no_nul: "plain_name n \<Longrightarrow> 0 \<notin> set n"
  by (auto simp: plain_name_def)

lemma write_output_file_done:
  assumes "plain_name hostname_arg"
    and "base_dir = (if frozen penv then path_dirname (executable penv) else getcwd penv)"
    and "path_isabs base_dir"
    and "out_path = base_dir @ sep_after base_dir @ hostname_arg @ ascii ''.txt''"
    and "0 \<notin> set base_dir"
    and "can_open fs out_path"
    and "utf8_encode (translate_newlines (linesep penv) content) = Some bytes"
    and "length bytes \<le> room fs out_path"
  shows "path_join base_dir (hostname_arg @ ascii ''.txt'') = out_path"
    and "write_output_file penv fs content hostname_arg = (store fs out_path bytes, Inr out_path)"
proof -
  have n: "plain_name (hostname_arg @ ascii ''.txt'')" "hostname_arg @ ascii ''.txt'' \<noteq> []"
    using plain_txt [OF assms(1)] by (simp_all add: ascii_def)
  show j: "path_join base_dir (hostname_arg @ ascii ''.txt'') = out_path"
    unfolding assms(4) using assms(3) n by (rule join_plain)
  have z: "0 \<notin> set out_path"
    using assms(5) plain_no_nul [OF n(1)] by (simp add: assms(4) sep_after_def)
  show "write_output_file penv fs content hostname_arg = (store fs out_path bytes, Inr out_path)"
    unfolding write_output_file_def assms(2) [symmetric] Let_def j
    using z assms(6,7,8) by simp
qed

text \<open>
  Claim C9, amended. For a host name that is a file name and a base directory (the
  working directory, or the directory of the executable when the script is frozen)
  that is absolute: when the file can be opened and the content, with each line feed
  replaced by the line separator, has a UTF-8 encoding that fits on the device,
  \<open>write_output_file\<close> returns the path made of the base directory, a backslash
  unless the directory ends with a separator, the host name and \<open>.txt\<close>. That is
  what \<open>os.path.join\<close> gives; its last component is the host name followed by
  \<open>.txt\<close>, its directory is the base directory, and it is absolute. Afterwards the
  file at that path holds exactly those bytes, whatever it held before, and every
  other file is as it was.
\<close>

theorem write_output_file_path:
  assumes "plain_name hostname_arg"
    and "base_dir = (if frozen penv then path_dirname (executable penv) else getcwd penv)"
    and "path_isabs base_dir"
    and "out_path = base_dir @ sep_after base_dir @ hostname_arg @ ascii ''.txt''"
    and "0 \<notin> set base_dir"
    and "can_open fs out_path"
    and "utf8_encode (translate_newlines (linesep penv) content) = Some bytes"
    and "length bytes \<le> room fs out_path"
  shows "snd (write_output_file penv fs content hostname_arg) = Inr out_path
         \<and> path_join base_dir (hostname_arg @ ascii ''.txt'') = out_path
         \<and> path_basename out_path = hostname_arg @ ascii ''.txt''
         \<and> (\<not> is_sep (last base_dir) \<longrightarrow> path_dirname out_path = base_dir)
         \<and> path_isabs out_path
         \<and> files (fst (write_output_file penv fs content hostname_arg)) out_path = Some bytes
         \<and> (\<forall>p. p \<noteq> out_path \<longrightarrow>
               files (fst (write_output_file penv fs content hostname_arg)) p = files fs p)"
proof -
  have n: "plain_name (hostname_arg @ ascii ''.txt'')" "hostname_arg @ ascii ''.txt'' \<noteq> []"
    using plain_txt [OF assms(1)] by (simp_all add: ascii_def)
  have w: "write_output_file penv fs content hostname_arg = (store fs out_path bytes, Inr out_path)"
    using assms by (rule write_output_file_done)
  have j: "path_join base_dir (hostname_arg @ ascii ''.txt'') = out_path"
    using assms by (rule write_output_file_done)
  have b: "path_basename out_path = hostname_arg @ ascii ''.txt''"
    unfolding assms(4) using assms(3) n by (rule split_plain)
  have a: "path_isabs out_path"
    unfolding assms(4) using assms(3) n by (rule split_plain)
  have d: "\<not> is_sep (last base_dir) \<longrightarrow> path_dirname out_path = base_dir"
    unfolding assms(4) using split_plain(3) [OF assms(3) n] by blast
  show ?thesis
    using j b a d by (simp add: w store_def)
qed

lemma write_output_file_failures:
  assumes "out_path = path_join (if frozen penv then path_dirname (executable penv) else getcwd penv)
                        (hostname_arg @ ascii ''.txt'')"
    and "0 \<notin> set out_path"
  shows "\<not> can_open fs out_path \<Longrightarrow>
           write_output_file penv fs content hostname_arg = (fs, Inl OSError)"
    and "can_open fs out_path \<Longrightarrow>
           utf8_encode (translate_newlines (linesep penv) content) = None \<Longrightarrow>
           write_output_file penv fs content hostname_arg
             = (store fs out_path [], Inl UnicodeEncodeError)"
    and "can_open fs out_path \<Longrightarrow>
           utf8_encode (translate_newlines (linesep penv) content) = Some bytes \<Longrightarrow>
           room fs out_path < length bytes \<Longrightarrow>
           write_output_file penv fs content hostname_arg
             = (store fs out_path (take (room fs out_path) bytes), Inl OSError)"
  using assms(2) unfolding write_output_file_def Let_def assms(1) [symmetric]
  by simp_all

lemma sample_facts_of_process:
  "plain_name (ascii ''PC01'')"
  "path_isabs (getcwd sample_process)"
  "sample_path = getcwd sample_process @ sep_after (getcwd sample_process)
                   @ ascii ''PC01'' @ ascii ''.txt''"
  "0 \<notin> set (getcwd sample_process)"
  "can_open sample_files sample_path"
  by (simp_all add: plain_name_def ascii_def is_sep_def path_isabs_def sample_process_def
      sample_path_def sample_files_def sep_after_def)

lemma sample_crlf:
  "utf8_encode (translate_newlines (linesep sample_process) [97, 10, 98])
     = Some [CHR ''a'', CHR 0x0D, CHR 0x0A, CHR ''b'']"
  unfolding sample_process_def by code_simp

lemma sample_write_crlf:
  "write_output_file sample_process sample_files [97, 10, 98] (ascii ''PC01'')
     = (store sample_files sample_path [CHR ''a'', CHR 0x0D, CHR 0x0A, CHR ''b''], Inr sample_path)"
  by (rule write_output_file_done(2)
        [OF sample_facts_of_process(1) _ sample_facts_of_process(2,3,4,5) sample_crlf])
     (simp_all add: sample_process_def sample_files_def)

text \<open>
  Claim C9, as stated, fails on Windows: the bytes written are not the UTF-8 encoding
  of the content when it has a line feed, which is stored as a carriage return and a
  line feed. The report always has line feeds.
\<close>

theorem line_feed_written_as_crlf:
  "linesep sample_process = [13, 10]
   \<and> utf8_encode [97, 10, 98] = Some [CHR ''a'', CHR 0x0A, CHR ''b'']
   \<and> snd (write_output_file sample_process sample_files [97, 10, 98] (ascii ''PC01''))
       = Inr sample_path
   \<and> files (fst (write_output_file sample_process sample_files [97, 10, 98] (ascii ''PC01'')))
        sample_path
       = Some [CHR ''a'', CHR 0x0D, CHR 0x0A, CHR ''b'']"
proof (intro conjI)
  show "linesep sample_process = [13, 10]"
    by (simp add: sample_process_def)
  show "utf8_encode [97, 10, 98] = Some [CHR ''a'', CHR 0x0A, CHR ''b'']"
    by code_simp
  show "snd (write_output_file sample_process sample_files [97, 10, 98] (ascii ''PC01''))
       = Inr sample_path"
    by (simp add: sample_write_crlf)
  show "files (fst (write_output_file sample_process sample_files [97, 10, 98] (ascii ''PC01'')))
        sample_path
       = Some [CHR ''a'', CHR 0x0D, CHR 0x0A, CHR ''b'']"
    by (simp add: sample_write_crlf store_def)
qed

lemma sample_e_acute:
  "utf8_encode (translate_newlines (linesep sample_process) [233, 10])
     = Some [CHR 0xC3, CHR 0xA9, CHR 0x0D, CHR 0x0A]"
  unfolding sample_process_def by code_simp

theorem write_output_file_path_witness:
  "plain_name (ascii ''PC01'')
   \<and> path_isabs (getcwd sample_process)
   \<and> can_open sample_files sample_path
   \<and> files sample_files sample_path = Some ''old''
   \<and> utf8_encode (translate_newlines (linesep sample_process) [233, 10])
       = Some [CHR 0xC3, CHR 0xA9, CHR 0x0D, CHR 0x0A]
   \<and> snd (write_output_file sample_process sample_files [233, 10] (ascii ''PC01''))
       = Inr sample_path
   \<and> path_basename sample_path = ascii ''PC01'' @ ascii ''.txt''
   \<and> path_dirname sample_path = getcwd sample_process
   \<and> path_isabs sample_path
   \<and> files (fst (write_output_file sample_process sample_files [233, 10] (ascii ''PC01'')))
        sample_path
       = Some [CHR 0xC3, CHR 0xA9, CHR 0x0D, CHR 0x0A]"
proof -
  have r: "length [CHR 0xC3, CHR 0xA9, CHR 0x0D, CHR 0x0A] \<le> room sample_files sample_path"
    by (simp add: sample_files_def)
  have b: "getcwd sample_process
             = (if frozen sample_process then path_dirname (executable sample_process)
                else getcwd sample_process)"
    by (simp add: sample_process_def)
  have l: "\<not> is_sep (last (getcwd sample_process))"
    by (simp add: sample_process_def ascii_def is_sep_def)
  have o: "files sample_files sample_path = Some ''old''"
    by (simp add: sample_files_def)
  from write_output_file_path
    [OF sample_facts_of_process(1) b sample_facts_of_process(2,3,4,5) sample_e_acute r] l
    sample_facts_of_process sample_e_acute o
  show ?thesis by simp
qed

end
